theory Spec2Isabelle
  imports Complex_Main
begin

section \<open>The real-time client of static/js/realtime.js\<close>

text \<open>
  A shallow embedding of the class \<open>OperatorOSRealTime\<close>. Every method of the class is a
  function on a record holding the fields of the instance together with the part of the
  browser the methods act on: the pending timers, the WebSocket objects, the item kept in
  localStorage, the clock. A method that can throw returns a \<open>result\<close> carrying the
  state reached when the exception left it.

  How the browser is represented:
  \<^item> Values are JSON values and \<open>undefined\<close>; the numbers among them are integers and
    strings are character lists. A template string is kept as its parts, the
    interpolated values unconverted.
  \<^item> Counters, timer handles, times and the options are non-negative integers below 2 to
    the power 53, on which the arithmetic of the language is the arithmetic of the
    integers; they are kept as naturals. The backoff delay is computed in the doubles of
    the language: its product is rounded as the language prescribes (\<open>round_double\<close>),
    and \<open>Math.pow\<close>, of which the language asks an approximation of the power, is the
    function of the engine (\<open>math_pow\<close>).
  \<^item> Subscriber callbacks and update actions are opaque. They are named by numbers, the
    state records each call in \<open>trace\<close>, and the environment decides whether a call
    throws (\<open>listener_throws\<close>, \<open>update_throws\<close>). They do not call back into the
    client.
  \<^item> The page has no element carrying \<open>data-agent-id\<close> or \<open>data-task-id\<close>, so that
    \<open>updateAgentStatusInUI\<close> and \<open>updateTaskStatusInUI\<close> find nothing to update;
    whether the user is watching a task is then a matter of the address of the page
    (\<open>watching\<close>). The two look for \<open>[data-agent-id="..."]\<close> and
    \<open>[data-task-id="..."]\<close> with the identifier written between the quotes; the
    environment decides for which identifiers this text is not a selector, so that
    \<open>querySelectorAll\<close> throws a SyntaxError (\<open>invalid_selector\<close>). Of
    \<open>updateConnectionStatus\<close> and \<open>updateNotificationCount\<close> the value last shown is
    kept.
  \<^item> Event names are not names of members of \<open>Object.prototype\<close>, so that
    \<open>this.listeners[event]\<close> is a lookup in the registry.
  \<^item> \<open>console.error\<close> is recorded with its first argument; \<open>console.log\<close>, the toasts
    of the dashboard and the promise returned by \<open>connect\<close> (whose callers only log)
    are left out.
\<close>

subsection \<open>Values, exceptions, results\<close>

datatype jsval =
    JUndefined
  | JNull
  | JBool bool
  | JNum int
  | JStr string
  | JArr "jsval list"
  | JObj "(string \<times> jsval) list"

datatype exn = TypeError | SyntaxError | InvalidStateError | CallbackError

datatype 'a result = Ok 'a | Thrown exn 'a

text \<open>The state a computation ends in, whether it returned or threw.\<close>

fun final :: "'a result \<Rightarrow> 'a" where
  "final (Ok s) = s"
| "final (Thrown e s) = s"

text \<open>Sequencing: the statements after a throwing one are skipped.\<close>

fun andThen :: "'a result \<Rightarrow> ('a \<Rightarrow> 'a result) \<Rightarrow> 'a result" where
  "andThen (Ok s) f = f s"
| "andThen (Thrown e s) f = Thrown e s"

text \<open>
  Property read \<open>v.k\<close> for the keys this file reads (none of them is a built-in member
  of a string, an array, a number or a boolean): \<open>None\<close> is the TypeError of reading a
  property of null or undefined.
\<close>

fun getProp :: "jsval \<Rightarrow> string \<Rightarrow> jsval option" where
  "getProp JUndefined k = None"
| "getProp JNull k = None"
| "getProp (JObj kvs) k = Some (case map_of kvs k of Some v \<Rightarrow> v | None \<Rightarrow> JUndefined)"
| "getProp v k = Some JUndefined"

subsection \<open>Numbers\<close>

text \<open>
  A number of the language is a binary64 double: a finite one, given by its rational
  value, an infinity, or NaN. The two zeros are not told apart. Only the delay of a timer
  is kept as a number; see the head of the file for the integers.

  \<open>round_double\<close> is the rounding of the arithmetic of the language: to the nearest
  double, to the one with the even significand when two are equally near, and to an
  infinity when the rounded value reaches 2 to the power 1024. Between 2 to the power
  \<open>e\<close> and the next power of 2 the doubles are 2 to the power \<open>e - 52\<close> apart; below 2
  to the power -1022 they are 2 to the power -1074 apart.
\<close>

datatype number = Finite rat | PosInfinity | NegInfinity | NaN

function bit_length :: "int \<Rightarrow> nat" where
  "bit_length n = (if n \<le> 0 then 0 else Suc (bit_length (n div 2)))"
  by auto

termination
  by (relation "measure nat") auto

declare bit_length.simps [simp del]

text \<open>The integer part of the binary logarithm of a positive rational.\<close>

definition floor_log2 :: "rat \<Rightarrow> int" where
  "floor_log2 x =
     (case quotient_of x of
        (p, q) \<Rightarrow>
          (let d = int (bit_length p) - int (bit_length q)
           in if 2 powi d \<le> x then d else d - 1))"

definition round_half_even :: "rat \<Rightarrow> int" where
  "round_half_even q =
     (let f = \<lfloor>q\<rfloor>; r = q - of_int f
      in if r < 1 / 2 then f
         else if 1 / 2 < r then f + 1
         else if even f then f else f + 1)"

definition round_double :: "rat \<Rightarrow> number" where
  "round_double x =
     (if x = 0 then Finite 0
      else
        (let e = max (floor_log2 \<bar>x\<bar>) (- 1022);
             ulp = 2 powi (e - 52);
             r = of_int (round_half_even (x / ulp)) * ulp
         in if 2 ^ 1024 \<le> r then PosInfinity
            else if r \<le> - (2 ^ 1024) then NegInfinity
            else Finite r))"

text \<open>The product \<open>n * y\<close> of a non-negative integer and a number.\<close>

fun times_number :: "nat \<Rightarrow> number \<Rightarrow> number" where
  "times_number n (Finite y) = round_double (of_nat n * y)"
| "times_number n PosInfinity = (if n = 0 then NaN else PosInfinity)"
| "times_number n NegInfinity = (if n = 0 then NaN else NegInfinity)"
| "times_number n NaN = NaN"

subsection \<open>Timers, sockets, notifications\<close>

datatype timer_callback =
    ConnectionTimeout
  | ReconnectAttempt
  | HeartbeatPing
  | FlushUpdates
  | PollMetrics

record timer =
  handle :: nat
  callback :: timer_callback
  delay :: number
  repeats :: bool

datatype ready_state = CONNECTING | OPEN | CLOSING | CLOSED

datatype msg_part = Lit string | Interp jsval

record notif_options =
  icon :: string
  duration :: "nat option"
  details :: "jsval option"

record notification =
  notif_id :: nat
  notif_message :: "msg_part list"
  notif_type :: string
  notif_timestamp :: nat
  notif_options :: notif_options

text \<open>
  The item under the key \<open>operatorOS_notifications\<close>: absent (or the empty string), the
  JSON of an array, JSON of something else, or text that is not JSON.
\<close>

datatype storage_item =
    NoItem
  | ItemArray "notification list"
  | ItemNotArray
  | ItemNotJson

text \<open>
  The entries of \<open>updateQueue\<close>: the two closures the class itself enqueues, a function
  enqueued by another caller of \<open>queueUpdate\<close>, or a value that is not a function.
\<close>

datatype update_fn =
    MetricsRefresh jsval
  | DashboardRefresh
  | ExternalFn nat
  | NotAFunction jsval

fun is_function :: "update_fn \<Rightarrow> bool" where
  "is_function (NotAFunction v) = False"
| "is_function f = True"

datatype arg = AValue jsval | ANotification notification | AErrorEvent

datatype effect =
    Delivered string nat arg
  | Invoked update_fn
  | Sent nat jsval
  | CloseCalled nat "nat option"
  | Fetched

record options =
  reconnectInterval :: nat
  maxReconnectAttempts :: nat
  heartbeatInterval :: nat
  updateThrottle :: nat

record realTime =
  options :: options
  websocket :: "nat option"
  isConnected :: bool
  reconnectAttempts :: nat
  lastHeartbeat :: "nat option"
  heartbeatTimer :: "nat option"
  updateQueue :: "update_fn list"
  updateTimer :: "nat option"
  listeners :: "string \<Rightarrow> nat list option"
  pollingInterval :: "nat option"
  sockets :: "ready_state list"
  timers :: "timer list"
  next_timer :: nat
  clock :: nat
  storage :: storage_item
  connectionStatus :: string
  notificationCount :: nat
  inflight :: nat
  trace :: "effect list"
  console :: "string list"
  listener_throws :: "nat \<Rightarrow> arg \<Rightarrow> bool"
  update_throws :: "update_fn \<Rightarrow> bool"
  watching :: "jsval \<Rightarrow> bool"
  invalid_selector :: "jsval \<Rightarrow> bool"
  math_pow :: "rat \<Rightarrow> nat \<Rightarrow> number"

text \<open>
  \<open>setTimeout\<close> and \<open>setInterval\<close> draw their handles from one counter and
  \<open>clearTimeout\<close> and \<open>clearInterval\<close> cancel either kind, as in a browser.
\<close>

definition setTimer :: "bool \<Rightarrow> timer_callback \<Rightarrow> number \<Rightarrow> realTime \<Rightarrow> nat \<times> realTime" where
  "setTimer rep cb d s =
     (next_timer s,
      s\<lparr>timers := timers s @ [\<lparr>handle = next_timer s, callback = cb, delay = d, repeats = rep\<rparr>],
        next_timer := Suc (next_timer s)\<rparr>)"

definition setTimeout :: "timer_callback \<Rightarrow> number \<Rightarrow> realTime \<Rightarrow> nat \<times> realTime" where
  "setTimeout = setTimer False"

definition setInterval :: "timer_callback \<Rightarrow> number \<Rightarrow> realTime \<Rightarrow> nat \<times> realTime" where
  "setInterval = setTimer True"

definition clearTimer :: "nat \<Rightarrow> realTime \<Rightarrow> realTime" where
  "clearTimer h s = s\<lparr>timers := filter (\<lambda>t. handle t \<noteq> h) (timers s)\<rparr>"

text \<open>The truth value of a field holding a timer handle: null, undefined and 0 are falsy.\<close>

fun truthy :: "nat option \<Rightarrow> bool" where
  "truthy None = False"
| "truthy (Some h) = (h \<noteq> 0)"

definition pending :: "realTime \<Rightarrow> nat \<Rightarrow> bool" where
  "pending s h = (h \<in> handle ` set (timers s))"

definition readyState :: "realTime \<Rightarrow> nat \<Rightarrow> ready_state" where
  "readyState s w = sockets s ! w"

definition console_error :: "string \<Rightarrow> realTime \<Rightarrow> realTime" where
  "console_error m s = s\<lparr>console := console s @ [m]\<rparr>"

definition record_effect :: "effect \<Rightarrow> realTime \<Rightarrow> realTime" where
  "record_effect e s = s\<lparr>trace := trace s @ [e]\<rparr>"

text \<open>\<open>updateConnectionStatus\<close>: the status last handed to the indicator.\<close>

definition updateConnectionStatus :: "string \<Rightarrow> realTime \<Rightarrow> realTime" where
  "updateConnectionStatus status s = s\<lparr>connectionStatus := status\<rparr>"

subsection \<open>Event emitter\<close>

definition on :: "string \<Rightarrow> nat \<Rightarrow> realTime \<Rightarrow> realTime" where
  "on event cb s =
     (let ls = (case listeners s event of None \<Rightarrow> [] | Some cbs \<Rightarrow> cbs)
      in s\<lparr>listeners := (listeners s)(event \<mapsto> ls @ [cb])\<rparr>)"

definition off :: "string \<Rightarrow> nat \<Rightarrow> realTime \<Rightarrow> realTime" where
  "off event cb s =
     (case listeners s event of
        None \<Rightarrow> s
      | Some cbs \<Rightarrow> s\<lparr>listeners := (listeners s)(event \<mapsto> filter (\<lambda>c. c \<noteq> cb) cbs)\<rparr>)"

text \<open>One call \<open>callback(data)\<close>: the call happens, then the callback may throw.\<close>

definition call_listener :: "string \<Rightarrow> nat \<Rightarrow> arg \<Rightarrow> realTime \<Rightarrow> realTime result" where
  "call_listener event cb data s =
     (let s' = record_effect (Delivered event cb data) s
      in if listener_throws s cb data then Thrown CallbackError s' else Ok s')"

text \<open>The body of the \<open>forEach\<close> in \<open>emit\<close>: the try/catch is around each single call.\<close>

fun emit_each :: "string \<Rightarrow> nat list \<Rightarrow> arg \<Rightarrow> realTime \<Rightarrow> realTime" where
  "emit_each event [] data s = s"
| "emit_each event (cb # cbs) data s =
     emit_each event cbs data
       (case call_listener event cb data s of
          Ok s' \<Rightarrow> s'
        | Thrown e s' \<Rightarrow> console_error ''Error in event listener'' s')"

definition emit :: "string \<Rightarrow> arg \<Rightarrow> realTime \<Rightarrow> realTime" where
  "emit event data s =
     (case listeners s event of
        None \<Rightarrow> s
      | Some cbs \<Rightarrow> emit_each event cbs data s)"

subsection \<open>Update coalescing queue\<close>

definition queueUpdate :: "update_fn \<Rightarrow> realTime \<Rightarrow> realTime" where
  "queueUpdate updateFunction s =
     (let s1 = s\<lparr>updateQueue := updateQueue s @ [updateFunction]\<rparr>
      in if \<not> truthy (updateTimer s1)
         then (case setTimeout FlushUpdates (Finite (of_nat (updateThrottle (options s1)))) s1 of
                 (h, s2) \<Rightarrow> s2\<lparr>updateTimer := Some h\<rparr>)
         else s1)"

definition call_update :: "update_fn \<Rightarrow> realTime \<Rightarrow> realTime result" where
  "call_update f s =
     (let s' = record_effect (Invoked f) s
      in if update_throws s f then Thrown CallbackError s' else Ok s')"

text \<open>
  The \<open>forEach\<close> in \<open>processUpdateQueue\<close>: nothing inside the loop catches, so the first
  action that throws ends the loop.
\<close>

fun forEach_update :: "update_fn list \<Rightarrow> realTime \<Rightarrow> realTime result" where
  "forEach_update [] s = Ok s"
| "forEach_update (f # fs) s =
     (if is_function f
      then (case call_update f s of
              Ok s' \<Rightarrow> forEach_update fs s'
            | Thrown e s' \<Rightarrow> Thrown e s')
      else forEach_update fs s)"

definition processUpdateQueue :: "realTime \<Rightarrow> realTime" where
  "processUpdateQueue s =
     (let s1 = (case forEach_update (updateQueue s) s of
                  Ok s' \<Rightarrow> s'
                | Thrown e s' \<Rightarrow> console_error ''Error processing update queue'' s')
      in s1\<lparr>updateQueue := [], updateTimer := None\<rparr>)"

subsection \<open>Notification store\<close>

definition updateNotificationCount :: "nat \<Rightarrow> realTime \<Rightarrow> realTime" where
  "updateNotificationCount count s = s\<lparr>notificationCount := count\<rparr>"

text \<open>
  \<open>JSON.parse(localStorage.getItem(key) || '[]')\<close>: a SyntaxError on text that is not
  JSON; on JSON that is not an array the later \<open>stored.unshift\<close> is the TypeError.
\<close>

definition storeNotification :: "notification \<Rightarrow> realTime \<Rightarrow> realTime result" where
  "storeNotification n s =
     (case storage s of
        ItemNotJson \<Rightarrow> Thrown SyntaxError s
      | ItemNotArray \<Rightarrow> Thrown TypeError s
      | item \<Rightarrow>
          (let stored = (case item of ItemArray ns \<Rightarrow> ns | _ \<Rightarrow> []);
               stored1 = n # stored;
               stored2 = (if length stored1 > 50 then take 50 stored1 else stored1)
           in Ok (updateNotificationCount (length stored2) (s\<lparr>storage := ItemArray stored2\<rparr>))))"

text \<open>
  \<open>getStoredNotifications\<close> returns what the item parses to: \<open>Some\<close> of the sequence
  when that is an array, \<open>None\<close> when it is another JSON value.
\<close>

definition getStoredNotifications :: "realTime \<Rightarrow> exn + notification list option" where
  "getStoredNotifications s =
     (case storage s of
        NoItem \<Rightarrow> Inr (Some [])
      | ItemArray ns \<Rightarrow> Inr (Some ns)
      | ItemNotArray \<Rightarrow> Inr None
      | ItemNotJson \<Rightarrow> Inl SyntaxError)"

definition clearNotifications :: "realTime \<Rightarrow> realTime" where
  "clearNotifications s = updateNotificationCount 0 (s\<lparr>storage := NoItem\<rparr>)"

definition showNotification ::
    "msg_part list \<Rightarrow> string \<Rightarrow> notif_options \<Rightarrow> realTime \<Rightarrow> realTime result" where
  "showNotification message type opts s =
     (let notification = \<lparr>notif_id = clock s, notif_message = message, notif_type = type,
                           notif_timestamp = clock s, notif_options = opts\<rparr>
      in andThen (storeNotification notification s)
           (\<lambda>s1. Ok (emit ''notification'' (ANotification notification) s1)))"

subsection \<open>Inbound updates\<close>

fun nullish :: "jsval \<Rightarrow> bool" where
  "nullish JUndefined = True"
| "nullish JNull = True"
| "nullish v = False"

definition field :: "jsval \<Rightarrow> string \<Rightarrow> jsval" where
  "field v k = (case getProp v k of Some x \<Rightarrow> x | None \<Rightarrow> JUndefined)"

text \<open>\<open>task_id.slice(0, 8)\<close>: strings and arrays have \<open>slice\<close>, nothing else does.\<close>

fun slice8 :: "jsval \<Rightarrow> jsval option" where
  "slice8 (JStr x) = Some (JStr (take 8 x))"
| "slice8 (JArr xs) = Some (JArr (take 8 xs))"
| "slice8 v = None"

definition handleMetricsUpdate :: "jsval \<Rightarrow> realTime \<Rightarrow> realTime" where
  "handleMetricsUpdate payload s =
     emit ''metrics_update'' (AValue payload) (queueUpdate (MetricsRefresh payload) s)"

text \<open>
  \<open>updateAgentStatusInUI\<close> and \<open>updateTaskStatusInUI\<close>: the selector is parsed before
  anything is looked up, and no element matches a selector that parses.
\<close>

definition updateAgentStatusInUI :: "jsval \<Rightarrow> jsval \<Rightarrow> realTime \<Rightarrow> realTime result" where
  "updateAgentStatusInUI agentId newStatus s =
     (if invalid_selector s agentId then Thrown SyntaxError s else Ok s)"

definition updateTaskStatusInUI :: "jsval \<Rightarrow> jsval \<Rightarrow> realTime \<Rightarrow> realTime result" where
  "updateTaskStatusInUI taskId newStatus s =
     (if invalid_selector s taskId then Thrown SyntaxError s else Ok s)"

text \<open>
  \<open>isUserWatchingTask\<close>: the address of the page is looked at first; \<open>querySelector\<close> is
  called, with the selector of \<open>updateTaskStatusInUI\<close>, only when the address does not
  name the task, and finds no element.
\<close>

definition isUserWatchingTask :: "jsval \<Rightarrow> realTime \<Rightarrow> bool option" where
  "isUserWatchingTask taskId s =
     (if watching s taskId then Some True
      else if invalid_selector s taskId then None
      else Some False)"

definition handleAgentStatusChange :: "jsval \<Rightarrow> realTime \<Rightarrow> realTime result" where
  "handleAgentStatusChange payload s =
     (if nullish payload then Thrown TypeError s
      else
        (let agent_id = field payload ''agent_id'';
             old_status = field payload ''old_status'';
             new_status = field payload ''new_status''
         in andThen
              (andThen (updateAgentStatusInUI agent_id new_status s)
                 (\<lambda>s0.
                    if new_status = JStr ''failed''
                    then showNotification [Lit ''Agent '', Interp agent_id, Lit '' has failed'']
                           ''warning''
                           \<lparr>icon = ''alert-triangle'', duration = None, details = None\<rparr> s0
                    else if old_status = JStr ''failed'' \<and> new_status = JStr ''idle''
                    then showNotification
                           [Lit ''Agent '', Interp agent_id, Lit '' has recovered'']
                           ''success''
                           \<lparr>icon = ''check-circle'', duration = None, details = None\<rparr> s0
                    else Ok s0))
              (\<lambda>s1. Ok (emit ''agent_status_change'' (AValue payload) s1))))"

definition handleTaskStatusChange :: "jsval \<Rightarrow> realTime \<Rightarrow> realTime result" where
  "handleTaskStatusChange payload s =
     (if nullish payload then Thrown TypeError s
      else
        (let task_id = field payload ''task_id'';
             new_status = field payload ''new_status''
         in andThen
              (andThen (updateTaskStatusInUI task_id new_status s)
                 (\<lambda>s0.
                    case isUserWatchingTask task_id s0 of
                      None \<Rightarrow> Thrown SyntaxError s0
                    | Some False \<Rightarrow> Ok s0
                    | Some True \<Rightarrow>
                        if new_status = JStr ''completed''
                        then (case slice8 task_id of
                                None \<Rightarrow> Thrown TypeError s0
                              | Some t \<Rightarrow>
                                  showNotification
                                    [Lit ''Task '', Interp t, Lit '' completed successfully'']
                                    ''success''
                                    \<lparr>icon = ''check-circle'', duration = Some 5000,
                                     details = None\<rparr> s0)
                        else if new_status = JStr ''failed''
                        then (case slice8 task_id of
                                None \<Rightarrow> Thrown TypeError s0
                              | Some t \<Rightarrow>
                                  showNotification [Lit ''Task '', Interp t, Lit '' failed'']
                                    ''error''
                                    \<lparr>icon = ''x-circle'', duration = Some 7000,
                                     details = None\<rparr> s0)
                        else Ok s0))
              (\<lambda>s1. Ok (emit ''task_status_change'' (AValue payload) s1))))"

definition handleSystemAlert :: "jsval \<Rightarrow> realTime \<Rightarrow> realTime result" where
  "handleSystemAlert payload s =
     (if nullish payload then Thrown TypeError s
      else
        (let level = field payload ''level'';
             message = field payload ''message'';
             details = field payload ''details'';
             notificationType =
               (if level = JStr ''error'' \<or> level = JStr ''critical'' then ''error''
                else if level = JStr ''warning'' then ''warning''
                else ''info'')
         in andThen
              (showNotification [Lit ''System Alert: '', Interp message] notificationType
                 \<lparr>icon = ''alert-triangle'',
                  duration = Some (if level = JStr ''critical'' then 0 else 8000),
                  details = Some details\<rparr> s)
              (\<lambda>s1. Ok (emit ''system_alert'' (AValue payload) s1))))"

definition handlePoolScaling :: "jsval \<Rightarrow> realTime \<Rightarrow> realTime result" where
  "handlePoolScaling payload s =
     (if nullish payload then Thrown TypeError s
      else
        (let pool_name = field payload ''pool_name'';
             action = field payload ''action'';
             agent_count = field payload ''agent_count''
         in andThen
              (showNotification
                 [Interp pool_name, Lit '' pool '', Interp action, Lit '': now '',
                  Interp agent_count, Lit '' agents'']
                 ''info'' \<lparr>icon = ''users'', duration = None, details = None\<rparr> s)
              (\<lambda>s1. Ok (emit ''pool_scaling'' (AValue payload)
                          (queueUpdate DashboardRefresh s1)))))"

definition processRealTimeUpdate :: "jsval \<Rightarrow> realTime \<Rightarrow> realTime result" where
  "processRealTimeUpdate data s =
     (case getProp data ''type'' of
        None \<Rightarrow> Thrown TypeError s
      | Some t \<Rightarrow>
          andThen
            (if t = JStr ''pong'' then Ok s
             else if t = JStr ''metrics_update''
               then Ok (handleMetricsUpdate (field data ''payload'') s)
             else if t = JStr ''agent_status_change''
               then handleAgentStatusChange (field data ''payload'') s
             else if t = JStr ''task_status_change''
               then handleTaskStatusChange (field data ''payload'') s
             else if t = JStr ''system_alert''
               then handleSystemAlert (field data ''payload'') s
             else if t = JStr ''pool_scaling''
               then handlePoolScaling (field data ''payload'') s
             else Ok s)
            (\<lambda>s1. Ok (emit ''update'' (AValue data) s1)))"

text \<open>
  \<open>handleWebSocketMessage\<close>: the frame's text is given parsed, \<open>None\<close> when
  \<open>JSON.parse\<close> throws. The try/catch swallows every exception of the processing.
\<close>

definition handleWebSocketMessage :: "jsval option \<Rightarrow> realTime \<Rightarrow> realTime" where
  "handleWebSocketMessage parsed s =
     (case (case parsed of
              None \<Rightarrow> Thrown SyntaxError s
            | Some data \<Rightarrow> processRealTimeUpdate data s) of
        Ok s' \<Rightarrow> s'
      | Thrown e s' \<Rightarrow> console_error ''Failed to parse WebSocket message'' s')"

subsection \<open>WebSocket objects\<close>

text \<open>
  \<open>websocket.send\<close> throws while the socket is connecting and drops the frame once it is
  closing or closed; \<open>websocket.close\<close> starts the closing of a socket that is connecting
  or open and does nothing otherwise. The close event itself arrives later.
\<close>

definition ws_send :: "nat \<Rightarrow> jsval \<Rightarrow> realTime \<Rightarrow> realTime result" where
  "ws_send w frame s =
     (if readyState s w = CONNECTING then Thrown InvalidStateError s
      else if readyState s w = OPEN then Ok (record_effect (Sent w frame) s)
      else Ok s)"

definition ws_close :: "nat \<Rightarrow> nat option \<Rightarrow> realTime \<Rightarrow> realTime" where
  "ws_close w code s =
     (let s1 = record_effect (CloseCalled w code) s
      in if readyState s w = CONNECTING \<or> readyState s w = OPEN
         then s1\<lparr>sockets := (sockets s1)[w := CLOSING]\<rparr>
         else s1)"

subsection \<open>Polling fallback\<close>

definition startPollingFallback :: "realTime \<Rightarrow> realTime" where
  "startPollingFallback s =
     (case setInterval PollMetrics (Finite 15000) s of
        (h, s1) \<Rightarrow> updateConnectionStatus ''polling'' (s1\<lparr>pollingInterval := Some h\<rparr>))"

definition stopPollingFallback :: "realTime \<Rightarrow> realTime" where
  "stopPollingFallback s =
     (case pollingInterval s of
        None \<Rightarrow> s
      | Some h \<Rightarrow> if h \<noteq> 0 then (clearTimer h s)\<lparr>pollingInterval := None\<rparr> else s)"

text \<open>
  The callback of the polling interval issues the request; its continuation runs when the
  response arrives.
\<close>

datatype poll_result = PollOk jsval | PollNotOk | PollFailed

definition pollTick :: "realTime \<Rightarrow> realTime" where
  "pollTick s = (record_effect Fetched s)\<lparr>inflight := Suc (inflight s)\<rparr>"

definition pollResponse :: "poll_result \<Rightarrow> realTime \<Rightarrow> realTime" where
  "pollResponse r s =
     (case r of
        PollOk data \<Rightarrow> handleMetricsUpdate data s
      | PollNotOk \<Rightarrow> s
      | PollFailed \<Rightarrow> console_error ''Polling update failed'' s)"

subsection \<open>Heartbeat\<close>

definition startHeartbeat :: "realTime \<Rightarrow> realTime" where
  "startHeartbeat s =
     (case setInterval HeartbeatPing (Finite (of_nat (heartbeatInterval (options s)))) s of
        (h, s1) \<Rightarrow> s1\<lparr>heartbeatTimer := Some h\<rparr>)"

definition stopHeartbeat :: "realTime \<Rightarrow> realTime" where
  "stopHeartbeat s =
     (case heartbeatTimer s of
        None \<Rightarrow> s
      | Some h \<Rightarrow> if h \<noteq> 0 then (clearTimer h s)\<lparr>heartbeatTimer := None\<rparr> else s)"

definition heartbeatTick :: "realTime \<Rightarrow> realTime result" where
  "heartbeatTick s =
     (if isConnected s
      then (case websocket s of
              None \<Rightarrow> Thrown TypeError s
            | Some w \<Rightarrow>
                if readyState s w = OPEN
                then andThen (ws_send w (JObj [(''type'', JStr ''ping'')]) s)
                       (\<lambda>s1. Ok (s1\<lparr>lastHeartbeat := Some (clock s1)\<rparr>))
                else Ok s)
      else Ok s)"

subsection \<open>Connection manager\<close>

text \<open>
  \<open>connect\<close>: nothing to do when the current socket is open; otherwise a new socket
  replaces the current one (whatever its state) and the five second timeout is armed.
  The address of the socket is built from the address of the page, so that
  \<open>new WebSocket\<close> does not throw. The timeout reads \<open>this.websocket\<close> when it fires:
  it closes the socket that is current then.
\<close>

definition connect :: "realTime \<Rightarrow> realTime" where
  "connect s =
     (if (case websocket s of None \<Rightarrow> False | Some w \<Rightarrow> readyState s w = OPEN) then s
      else
        (let w = length (sockets s);
             s1 = s\<lparr>sockets := sockets s @ [CONNECTING], websocket := Some w\<rparr>
         in snd (setTimeout ConnectionTimeout (Finite 5000) s1)))"

definition connectionTimeout :: "realTime \<Rightarrow> realTime result" where
  "connectionTimeout s =
     (case websocket s of
        None \<Rightarrow> Thrown TypeError s
      | Some w \<Rightarrow> if readyState s w \<noteq> OPEN then Ok (ws_close w None s) else Ok s)"

definition handleWebSocketOpen :: "realTime \<Rightarrow> realTime" where
  "handleWebSocketOpen s =
     updateConnectionStatus ''connected''
       (emit ''connected'' (AValue JUndefined)
          (startHeartbeat (s\<lparr>isConnected := True, reconnectAttempts := 0\<rparr>)))"

text \<open>
  \<open>scheduleReconnect\<close>: \<open>Math.pow(1.5, this.reconnectAttempts - 1)\<close> is a call of the
  engine's function with a base and a non-negative integer; the handle that
  \<open>setTimeout\<close> returns is dropped.
\<close>

definition scheduleReconnect :: "realTime \<Rightarrow> realTime" where
  "scheduleReconnect s =
     (let s1 = s\<lparr>reconnectAttempts := reconnectAttempts s + 1\<rparr>;
          delay = times_number (reconnectInterval (options s1))
                    (math_pow s1 (3 / 2) (reconnectAttempts s1 - 1))
      in snd (setTimeout ReconnectAttempt delay s1))"

definition reconnectTick :: "realTime \<Rightarrow> realTime" where
  "reconnectTick s = (if \<not> isConnected s then connect s else s)"

definition handleWebSocketClose :: "nat \<Rightarrow> realTime \<Rightarrow> realTime" where
  "handleWebSocketClose code s =
     (let s1 = updateConnectionStatus ''disconnected''
                 (emit ''disconnected'' (AValue JUndefined)
                    (stopHeartbeat (s\<lparr>isConnected := False\<rparr>)))
      in if code \<noteq> 1000 \<and> reconnectAttempts s1 < maxReconnectAttempts (options s1)
         then scheduleReconnect s1
         else startPollingFallback s1)"

definition handleWebSocketError :: "realTime \<Rightarrow> realTime" where
  "handleWebSocketError s =
     updateConnectionStatus ''error''
       (emit ''error'' AErrorEvent (console_error ''WebSocket error'' s))"

definition send :: "jsval \<Rightarrow> realTime \<Rightarrow> realTime result" where
  "send data s =
     (if isConnected s
      then (case websocket s of
              None \<Rightarrow> Thrown TypeError s
            | Some w \<Rightarrow> if readyState s w = OPEN then ws_send w data s else Ok s)
      else Ok s)"

definition handlePageHidden :: "realTime \<Rightarrow> realTime result" where
  "handlePageHidden s =
     (if isConnected s then send (JObj [(''type'', JStr ''page_hidden'')]) s else Ok s)"

definition handlePageVisible :: "realTime \<Rightarrow> realTime result" where
  "handlePageVisible s =
     (if isConnected s then send (JObj [(''type'', JStr ''page_visible'')]) s
      else Ok (connect s))"

definition handleNetworkOnline :: "realTime \<Rightarrow> realTime" where
  "handleNetworkOnline s = (if \<not> isConnected s then connect s else s)"

definition handleNetworkOffline :: "realTime \<Rightarrow> realTime" where
  "handleNetworkOffline s = updateConnectionStatus ''offline'' s"

definition cleanup :: "realTime \<Rightarrow> realTime" where
  "cleanup s =
     (let s1 = stopPollingFallback (stopHeartbeat s);
          s2 = (case websocket s1 of None \<Rightarrow> s1 | Some w \<Rightarrow> ws_close w (Some 1000) s1);
          s3 = (case updateTimer s2 of
                  None \<Rightarrow> s2
                | Some h \<Rightarrow> if h \<noteq> 0 then clearTimer h s2 else s2)
      in s3\<lparr>listeners := Map.empty\<rparr>)"

subsection \<open>Construction\<close>

definition default_options :: options where
  "default_options =
     \<lparr>reconnectInterval = 5000, maxReconnectAttempts = 10,
      heartbeatInterval = 30000, updateThrottle = 1000\<rparr>"

text \<open>
  \<open>init\<close>: neither \<open>setupEventListeners\<close> nor \<open>startPollingFallback\<close> throws, so the
  catch branch is not taken; the listeners registered on the page become the events below.
\<close>

definition init :: "realTime \<Rightarrow> realTime" where
  "init s = startPollingFallback s"

record environment =
  env_clock :: nat
  env_storage :: storage_item
  env_listener_throws :: "nat \<Rightarrow> arg \<Rightarrow> bool"
  env_update_throws :: "update_fn \<Rightarrow> bool"
  env_watching :: "jsval \<Rightarrow> bool"
  env_invalid_selector :: "jsval \<Rightarrow> bool"
  env_math_pow :: "rat \<Rightarrow> nat \<Rightarrow> number"

text \<open>
  \<open>new OperatorOSRealTime(options)\<close> in a page with no timer and no socket yet; \<open>opts\<close>
  is the caller's options merged over \<open>default_options\<close>. Timer handles start at 1.
\<close>

definition constructor :: "options \<Rightarrow> environment \<Rightarrow> realTime" where
  "constructor opts env =
     init \<lparr>options = opts, websocket = None, isConnected = False, reconnectAttempts = 0,
           lastHeartbeat = None, heartbeatTimer = None, updateQueue = [], updateTimer = None,
           listeners = Map.empty, pollingInterval = None,
           sockets = [], timers = [], next_timer = 1, clock = env_clock env,
           storage = env_storage env, connectionStatus = [], notificationCount = 0,
           inflight = 0, trace = [], console = [],
           listener_throws = env_listener_throws env,
           update_throws = env_update_throws env, watching = env_watching env,
           invalid_selector = env_invalid_selector env, math_pow = env_math_pow env\<rparr>"

subsection \<open>The event loop\<close>

text \<open>
  What can happen to a constructed client: calls of its interface, the events of its
  sockets, the firing of a pending timer, the arrival of a poll response, the page and
  network events it listens to, and the passing of time. An event that cannot happen in
  the current state (a timer that is not pending, a socket in the wrong state) changes
  nothing. An exception that reaches the event loop is reported by the browser and the
  state stays as the exception left it.
\<close>

datatype event =
    CallConnect
  | CallSend jsval
  | CallOn string nat
  | CallOff string nat
  | CallQueueUpdate update_fn
  | CallClearNotifications
  | BeforeUnload
  | SocketOpens nat
  | SocketMessage nat "jsval option"
  | SocketError nat
  | SocketCloses nat nat
  | TimerFires nat
  | PollResponse poll_result
  | PageHidden
  | PageVisible
  | NetworkOnline
  | NetworkOffline
  | TimePasses nat

definition fire :: "timer \<Rightarrow> realTime \<Rightarrow> realTime" where
  "fire t s =
     (let s1 = (if repeats t then s else clearTimer (handle t) s)
      in case callback t of
           ConnectionTimeout \<Rightarrow> final (connectionTimeout s1)
         | ReconnectAttempt \<Rightarrow> reconnectTick s1
         | HeartbeatPing \<Rightarrow> final (heartbeatTick s1)
         | FlushUpdates \<Rightarrow> processUpdateQueue s1
         | PollMetrics \<Rightarrow> pollTick s1)"

definition step :: "event \<Rightarrow> realTime \<Rightarrow> realTime" where
  "step ev s =
     (case ev of
        CallConnect \<Rightarrow> connect s
      | CallSend data \<Rightarrow> final (send data s)
      | CallOn e cb \<Rightarrow> on e cb s
      | CallOff e cb \<Rightarrow> off e cb s
      | CallQueueUpdate f \<Rightarrow> queueUpdate f s
      | CallClearNotifications \<Rightarrow> clearNotifications s
      | BeforeUnload \<Rightarrow> cleanup s
      | SocketOpens w \<Rightarrow>
          if w < length (sockets s) \<and> readyState s w = CONNECTING
          then handleWebSocketOpen (s\<lparr>sockets := (sockets s)[w := OPEN]\<rparr>)
          else s
      | SocketMessage w parsed \<Rightarrow>
          if w < length (sockets s) \<and> (readyState s w = OPEN \<or> readyState s w = CLOSING)
          then handleWebSocketMessage parsed s
          else s
      | SocketError w \<Rightarrow>
          if w < length (sockets s) \<and> readyState s w \<noteq> CLOSED
          then handleWebSocketError s
          else s
      | SocketCloses w code \<Rightarrow>
          if w < length (sockets s) \<and> readyState s w \<noteq> CLOSED
          then handleWebSocketClose code (s\<lparr>sockets := (sockets s)[w := CLOSED]\<rparr>)
          else s
      | TimerFires h \<Rightarrow>
          (case find (\<lambda>t. handle t = h) (timers s) of
             None \<Rightarrow> s
           | Some t \<Rightarrow> fire t s)
      | PollResponse r \<Rightarrow>
          if 0 < inflight s then pollResponse r (s\<lparr>inflight := inflight s - 1\<rparr>) else s
      | PageHidden \<Rightarrow> final (handlePageHidden s)
      | PageVisible \<Rightarrow> final (handlePageVisible s)
      | NetworkOnline \<Rightarrow> handleNetworkOnline s
      | NetworkOffline \<Rightarrow> handleNetworkOffline s
      | TimePasses d \<Rightarrow> s\<lparr>clock := clock s + d\<rparr>)"

fun run :: "event list \<Rightarrow> realTime \<Rightarrow> realTime" where
  "run [] s = s"
| "run (ev # evs) s = run evs (step ev s)"

section \<open>Notions used in the statements\<close>

subsection \<open>Dispatch and flush\<close>

text \<open>The callbacks registered for an event, in registration order.\<close>

definition subscribers :: "realTime \<Rightarrow> string \<Rightarrow> nat list" where
  "subscribers s ev = (case listeners s ev of None \<Rightarrow> [] | Some cbs \<Rightarrow> cbs)"

text \<open>The calls of subscribers of one event type among the recorded effects.\<close>

fun delivery_of :: "string \<Rightarrow> effect \<Rightarrow> bool" where
  "delivery_of ev (Delivered ev' cb data) = (ev' = ev)"
| "delivery_of ev e = False"

definition deliveries :: "string \<Rightarrow> realTime \<Rightarrow> effect list" where
  "deliveries ev s = filter (delivery_of ev) (trace s)"

text \<open>
  What a flush invokes from a buffer: the functions among its entries, in order, up to and
  including the first one that throws; and whether one throws.
\<close>

fun invoked_prefix :: "(update_fn \<Rightarrow> bool) \<Rightarrow> update_fn list \<Rightarrow> update_fn list" where
  "invoked_prefix thr [] = []"
| "invoked_prefix thr (f # fs) =
     (if is_function f
      then (if thr f then [f] else f # invoked_prefix thr fs)
      else invoked_prefix thr fs)"

fun flush_throws :: "(update_fn \<Rightarrow> bool) \<Rightarrow> update_fn list \<Rightarrow> bool" where
  "flush_throws thr [] = False"
| "flush_throws thr (f # fs) =
     (if is_function f then (thr f \<or> flush_throws thr fs) else flush_throws thr fs)"

text \<open>Enqueuing actions one after the other, and the flush timers that are pending.\<close>

fun enqueue_all :: "update_fn list \<Rightarrow> realTime \<Rightarrow> realTime" where
  "enqueue_all [] s = s"
| "enqueue_all (f # fs) s = enqueue_all fs (queueUpdate f s)"

definition flush_timers :: "realTime \<Rightarrow> timer list" where
  "flush_timers s = filter (\<lambda>t. callback t = FlushUpdates) (timers s)"

subsection \<open>Notification store\<close>

text \<open>The sequence a storage item stands for, when it stands for one.\<close>

definition stored_list :: "storage_item \<Rightarrow> notification list option" where
  "stored_list item =
     (case item of NoItem \<Rightarrow> Some [] | ItemArray ns \<Rightarrow> Some ns | _ \<Rightarrow> None)"

text \<open>Recording notifications one after the other, oldest first.\<close>

fun storeAll :: "notification list \<Rightarrow> realTime \<Rightarrow> realTime result" where
  "storeAll [] s = Ok s"
| "storeAll (n # ns) s = andThen (storeNotification n s) (storeAll ns)"

text \<open>
  The notification that \<open>handleAgentStatusChange\<close> builds for an agent whose new status is
  \<open>failed\<close>, at the time of the state.
\<close>

definition agent_failed_note :: "realTime \<Rightarrow> jsval \<Rightarrow> notification" where
  "agent_failed_note s payload =
     \<lparr>notif_id = clock s,
      notif_message = [Lit ''Agent '', Interp (field payload ''agent_id''), Lit '' has failed''],
      notif_type = ''warning'', notif_timestamp = clock s,
      notif_options = \<lparr>icon = ''alert-triangle'', duration = None, details = None\<rparr>\<rparr>"

subsection \<open>Connection\<close>

text \<open>
  The client is connected when \<open>isConnected\<close> is set and its current socket is open: the
  condition under which \<open>send\<close> transmits. \<open>transmit\<close> is the handing of a message to
  the current socket.
\<close>

definition connected :: "realTime \<Rightarrow> bool" where
  "connected s \<longleftrightarrow>
     isConnected s \<and> (case websocket s of None \<Rightarrow> False | Some w \<Rightarrow> readyState s w = OPEN)"

definition transmit :: "jsval \<Rightarrow> realTime \<Rightarrow> realTime" where
  "transmit data s =
     (case websocket s of None \<Rightarrow> s | Some w \<Rightarrow> record_effect (Sent w data) s)"

text \<open>
  Polling is live when the handle in \<open>pollingInterval\<close> names a pending polling
  interval. \<open>poll_kept\<close> relates a state to a later one that still tracks the same handle
  and has lost no polling timer.
\<close>

definition polling_live :: "realTime \<Rightarrow> bool" where
  "polling_live s \<longleftrightarrow>
     (case pollingInterval s of
        None \<Rightarrow> False
      | Some h \<Rightarrow> h \<noteq> 0 \<and> (\<exists>t\<in>set (timers s). handle t = h \<and> callback t = PollMetrics \<and> repeats t))"

definition poll_kept :: "realTime \<Rightarrow> realTime \<Rightarrow> bool" where
  "poll_kept s s' \<longleftrightarrow>
     pollingInterval s' = pollingInterval s
     \<and> (\<forall>t\<in>set (timers s). callback t = PollMetrics \<longrightarrow> t \<in> set (timers s'))"

text \<open>What \<open>cleanup\<close> cancels: the handles the client keeps, when they are truthy.\<close>

definition cancelled_by_cleanup :: "realTime \<Rightarrow> nat \<Rightarrow> bool" where
  "cancelled_by_cleanup s h \<longleftrightarrow>
     h \<noteq> 0 \<and> (heartbeatTimer s = Some h \<or> pollingInterval s = Some h \<or> updateTimer s = Some h)"

text \<open>
  Consecutive failed connection attempts, each seen by the client as a close event with
  the given code; the pending retries; and the retries that \<open>n\<close> failures schedule
  from attempt counter \<open>a\<close> on, the first under handle \<open>h\<close>, on an engine with
  \<open>Math.pow\<close> \<open>pw\<close>.
\<close>

fun failures :: "nat list \<Rightarrow> realTime \<Rightarrow> realTime" where
  "failures [] s = s"
| "failures (code # codes) s = failures codes (handleWebSocketClose code s)"

definition reconnects :: "realTime \<Rightarrow> timer list" where
  "reconnects s = filter (\<lambda>t. callback t = ReconnectAttempt) (timers s)"

fun retries :: "(rat \<Rightarrow> nat \<Rightarrow> number) \<Rightarrow> nat \<Rightarrow> nat \<Rightarrow> nat \<Rightarrow> nat \<Rightarrow> timer list" where
  "retries pw base h a 0 = []"
| "retries pw base h a (Suc n) =
     \<lparr>handle = h, callback = ReconnectAttempt, delay = times_number base (pw (3 / 2) a),
      repeats = False\<rparr> # retries pw base (Suc h) (Suc a) n"

text \<open>
  An engine whose \<open>Math.pow\<close> returns the power whenever the power is a double, and the
  \<open>Math.pow\<close> that returns the double nearest to the power, which is one of them.
\<close>

definition exact_on_doubles :: "(rat \<Rightarrow> nat \<Rightarrow> number) \<Rightarrow> bool" where
  "exact_on_doubles pw \<longleftrightarrow>
     (\<forall>b k. round_double (b ^ k) = Finite (b ^ k) \<longrightarrow> pw b k = Finite (b ^ k))"

definition nearest_power :: "rat \<Rightarrow> nat \<Rightarrow> number" where
  "nearest_power b k = round_double (b ^ k)"

text \<open>The state in which \<open>handleWebSocketClose\<close> takes its decision.\<close>

definition closing :: "realTime \<Rightarrow> realTime" where
  "closing s =
     updateConnectionStatus ''disconnected''
       (emit ''disconnected'' (AValue JUndefined) (stopHeartbeat (s\<lparr>isConnected := False\<rparr>)))"

subsection \<open>Well-formed states\<close>

text \<open>
  \<open>well_formed\<close> holds of every state the event loop reaches from a constructed client:
  timer handles are positive, distinct and below the counter; the handle kept in
  \<open>heartbeatTimer\<close>, \<open>updateTimer\<close> and \<open>pollingInterval\<close> names only timers of its
  own kind; every pending flush timer is the one \<open>updateTimer\<close> names; the current
  socket exists, and there is one as soon as the client is connected. \<open>same_core\<close>
  relates two states that agree on the fields these facts read.
\<close>

definition tracked :: "realTime \<Rightarrow> timer_callback \<Rightarrow> nat option \<Rightarrow> bool" where
  "tracked s cb ho \<longleftrightarrow>
     (\<forall>h. ho = Some h \<longrightarrow>
        h < next_timer s \<and> (\<forall>t\<in>set (timers s). handle t = h \<longrightarrow> callback t = cb))"

definition timers_ok :: "realTime \<Rightarrow> bool" where
  "timers_ok s \<longleftrightarrow>
     0 < next_timer s
     \<and> (\<forall>t\<in>set (timers s). 0 < handle t \<and> handle t < next_timer s)
     \<and> distinct (map handle (timers s))
     \<and> (\<forall>t\<in>set (timers s). callback t = FlushUpdates \<longrightarrow>
           updateTimer s = Some (handle t) \<and> \<not> repeats t)
     \<and> (\<forall>t\<in>set (timers s). callback t = PollMetrics \<longrightarrow> repeats t)"

definition sockets_ok :: "realTime \<Rightarrow> bool" where
  "sockets_ok s \<longleftrightarrow>
     (\<forall>w. websocket s = Some w \<longrightarrow> w < length (sockets s))
     \<and> (websocket s = None \<longrightarrow> sockets s = [] \<and> \<not> isConnected s)"

definition well_formed :: "realTime \<Rightarrow> bool" where
  "well_formed s \<longleftrightarrow>
     timers_ok s \<and> sockets_ok s
     \<and> tracked s HeartbeatPing (heartbeatTimer s)
     \<and> tracked s FlushUpdates (updateTimer s)
     \<and> tracked s PollMetrics (pollingInterval s)"

definition same_core :: "realTime \<Rightarrow> realTime \<Rightarrow> bool" where
  "same_core s s' \<longleftrightarrow>
     timers s' = timers s \<and> next_timer s' = next_timer s \<and> websocket s' = websocket s
     \<and> sockets s' = sockets s \<and> isConnected s' = isConnected s
     \<and> heartbeatTimer s' = heartbeatTimer s \<and> updateTimer s' = updateTimer s
     \<and> pollingInterval s' = pollingInterval s"

subsection \<open>Concrete clients\<close>

text \<open>
  A page in which listener 8 and the external update action 8 throw and nothing else
  does, every identifier makes a selector, no task is watched and \<open>Math.pow\<close> returns
  the nearest double, and the client constructed in it with the default options.
\<close>

definition sample_env :: environment where
  "sample_env = \<lparr>env_clock = 0, env_storage = NoItem,
                 env_listener_throws = (\<lambda>cb data. cb = 8),
                 env_update_throws = (\<lambda>f. f = ExternalFn 8),
                 env_watching = (\<lambda>v. False),
                 env_invalid_selector = (\<lambda>v. False),
                 env_math_pow = nearest_power\<rparr>"

definition sample_client :: realTime where
  "sample_client = constructor default_options sample_env"

text \<open>
  The same client in a page whose selector parser rejects what is written with an
  identifier containing a double quote.
\<close>

definition quoting_client :: realTime where
  "quoting_client = sample_client\<lparr>invalid_selector := (\<lambda>v. v = JStr (''a'' @ [CHR 0x22]))\<rparr>"

definition sample_note :: "nat \<Rightarrow> notification" where
  "sample_note k = \<lparr>notif_id = k, notif_message = [Lit ''alert''], notif_type = ''info'',
            notif_timestamp = k,
            notif_options = \<lparr>icon = ''users'', duration = None, details = None\<rparr>\<rparr>"

definition sample_frame :: jsval where
  "sample_frame =
     JObj [(''type'', JStr ''metrics_update''),
           (''payload'', JObj [(''agent_stats'', JObj [(''active'', JNum 3)])])]"

text \<open>The same client with a subscriber of \<open>metrics_update\<close> and one of \<open>update\<close>.\<close>

definition watched_client :: realTime where
  "watched_client = on ''update'' 7 (on ''metrics_update'' 9 sample_client)"

text \<open>
  A client with a backoff timer (3), a heartbeat timer (5) and a flush timer (6) pending:
  the first socket failed, a second one was opened on the network coming back before the
  retry was due, and a metrics frame has arrived on it.
\<close>

definition busy_client :: realTime where
  "busy_client =
     run [CallConnect, SocketCloses 0 1006, NetworkOnline, SocketOpens 1,
          SocketMessage 1 (Some sample_frame)] sample_client"

text \<open>
  A client allowed two reconnect attempts whose first two connection attempts have
  failed: the first socket closes, its connection timeout and the first retry fire, the
  socket opened by the retry closes as well.
\<close>

definition two_attempts :: options where
  "two_attempts = default_options\<lparr>maxReconnectAttempts := 2\<rparr>"

definition twice_failed :: realTime where
  "twice_failed =
     run [CallConnect, SocketCloses 0 1006, TimerFires 2, TimerFires 3, SocketCloses 1 1006]
       (constructor two_attempts sample_env)"

section \<open>Rounding\<close>

text \<open>
  A rational with a numerator below 2 to the power 53 and a denominator that is a power
  of 2 (up to 2 to the power 1074) is a double, and \<open>round_double\<close> returns it. Hence
  the backoff delay is the exact product as long as the base interval times 3 to the
  power of the exponent stays below 2 to the power 53 and \<open>Math.pow\<close> is exact on
  doubles.
\<close>

lemma bit_length_bounds:
  "0 < n \<Longrightarrow> 2 ^ (bit_length n - 1) \<le> n \<and> n < 2 ^ bit_length n"
proof (induction n rule: bit_length.induct)
  case (1 n)
  show ?case
  proof (cases "n div 2 \<le> 0")
    case True
    with 1(2) have "n = 1" by linarith
    then show ?thesis by (simp add: bit_length.simps[of 1] bit_length.simps[of 0])
  next
    case False
    then have pos: "0 < n div 2" by simp
    have n: "\<not> n \<le> 0" using 1(2) by simp
    from 1(1)[OF n pos]
    have lo: "2 ^ (bit_length (n div 2) - 1) \<le> n div 2"
      and hi: "n div 2 < 2 ^ bit_length (n div 2)" by simp_all
    have b: "bit_length n = Suc (bit_length (n div 2))"
      using n by (simp add: bit_length.simps[of n])
    have b0: "0 < bit_length (n div 2)"
      using pos by (simp add: bit_length.simps[of "n div 2"])
    have "2 ^ bit_length (n div 2) = (2::int) * 2 ^ (bit_length (n div 2) - 1)"
      using b0 by (cases "bit_length (n div 2)") simp_all
    with lo have "2 ^ bit_length (n div 2) \<le> 2 * (n div 2)" by simp
    also have "\<dots> \<le> n" by simp
    finally have l: "2 ^ (bit_length n - 1) \<le> n" by (simp add: b)
    from hi have "n div 2 + 1 \<le> 2 ^ bit_length (n div 2)" by simp
    then have "2 * (n div 2) + 2 \<le> 2 * 2 ^ bit_length (n div 2)" by simp
    moreover have "n < 2 * (n div 2) + 2" by linarith
    ultimately have u: "n < 2 ^ bit_length n" by (simp add: b)
    from l u show ?thesis by simp
  qed
qed


lemma powi_diff_nat:
  assumes a: "0 < a"
  shows "(2::rat) powi (int a - int b - 1) = 2 ^ (a - 1) / 2 ^ b"
proof -
  have e: "int a - int b - 1 = int (a - 1) - int b" using a by arith
  have "(2::rat) powi (int (a - 1) - int b) = 2 powi int (a - 1) / 2 powi int b"
    by (rule power_int_diff) simp
  then show ?thesis unfolding e by (simp only: power_int_of_nat)
qed

lemma of_int_power_le:
  "(2::int) ^ k \<le> p \<Longrightarrow> (2::rat) ^ k \<le> of_int p"
  "q < (2::int) ^ k \<Longrightarrow> (of_int q :: rat) < 2 ^ k"
proof -
  assume "(2::int) ^ k \<le> p"
  then have "(of_int (2 ^ k) :: rat) \<le> of_int p" by (simp only: of_int_le_iff)
  then show "(2::rat) ^ k \<le> of_int p" by simp
next
  assume "q < (2::int) ^ k"
  then have "(of_int q :: rat) < of_int (2 ^ k)" by (simp only: of_int_less_iff)
  then show "(of_int q :: rat) < 2 ^ k" by simp
qed

lemma floor_log2_le:
  assumes "0 < x"
  shows "2 powi floor_log2 x \<le> x"
proof -
  obtain p q where pq: "quotient_of x = (p, q)" by (cases "quotient_of x")
  then have q: "0 < q" and x: "x = of_int p / of_int q"
    by (simp_all add: quotient_of_denom_pos quotient_of_div)
  from assms x q have p: "0 < p" by (simp add: zero_less_divide_iff)
  let ?d = "int (bit_length p) - int (bit_length q)"
  show ?thesis
  proof (cases "2 powi ?d \<le> x")
    case True
    then show ?thesis by (simp add: floor_log2_def pq Let_def)
  next
    case False
    then have f: "floor_log2 x = ?d - 1" by (simp add: floor_log2_def pq Let_def)
    from bit_length_bounds[OF p] have lo: "(2::rat) ^ (bit_length p - 1) \<le> of_int p"
      by (simp add: of_int_power_le)
    from bit_length_bounds[OF q] have hi: "(of_int q :: rat) < 2 ^ bit_length q"
      by (simp add: of_int_power_le)
    have bp: "0 < bit_length p" using p by (simp add: bit_length.simps[of p])
    have "(2::rat) powi (?d - 1) = 2 ^ (bit_length p - 1) / 2 ^ bit_length q"
      by (rule powi_diff_nat[OF bp])
    also have "\<dots> \<le> of_int p / 2 ^ bit_length q"
      using lo by (simp add: divide_right_mono)
    also have "\<dots> \<le> of_int p / of_int q"
    proof (rule divide_left_mono)
      show "(of_int q :: rat) \<le> 2 ^ bit_length q" using hi by simp
      show "(0::rat) \<le> of_int p" using p by simp
      show "(0::rat) < 2 ^ bit_length q * of_int q" using q by simp
    qed
    finally have "(2::rat) powi (?d - 1) \<le> x" unfolding x .
    then show ?thesis unfolding f .
  qed
qed


lemma dyadic_scaled:
  assumes "e \<le> 52 - int k"
  shows "(of_nat N * 2 powi (- int k)) / 2 powi (e - 52) =
           (of_int (int N * 2 ^ nat (52 - int k - e)) :: rat)"
proof -
  have j: "- int k - (e - 52) = int (nat (52 - int k - e))"
    using assms by arith
  have "(2::rat) powi (- int k) / 2 powi (e - 52) = 2 powi (- int k - (e - 52))"
    by (rule power_int_diff[symmetric]) simp
  also have "\<dots> = 2 ^ nat (52 - int k - e)"
    unfolding j by (rule power_int_of_nat)
  finally have "(2::rat) powi (- int k) / 2 powi (e - 52) = 2 ^ nat (52 - int k - e)" .
  then have "(of_nat N * 2 powi (- int k)) / 2 powi (e - 52) =
        (of_nat N :: rat) * 2 ^ nat (52 - int k - e)"
    by (simp only: times_divide_eq_right[symmetric])
  then show ?thesis by simp
qed

lemma dyadic_powi: "(of_nat N / 2 ^ k :: rat) = of_nat N * 2 powi (- int k)"
  by (simp only: power_int_minus power_int_of_nat divide_inverse)

lemma floor_log2_dyadic:
  assumes N: "0 < N" "N < 2 ^ 53"
  shows "floor_log2 (of_nat N / 2 ^ k) \<le> 52 - int k"
proof (rule ccontr)
  let ?x = "of_nat N / 2 ^ k :: rat"
  assume "\<not> floor_log2 ?x \<le> 52 - int k"
  then have "53 - int k \<le> floor_log2 ?x" by arith
  then have "(2::rat) powi (53 - int k) \<le> 2 powi floor_log2 ?x"
    by (rule power_int_increasing) simp
  also have "\<dots> \<le> ?x"
    by (rule floor_log2_le) (use N in simp)
  finally have a: "(2::rat) powi (53 - int k) \<le> ?x" .
  have "(2::rat) powi (53 - int k) = 2 powi 53 / 2 powi int k"
    by (rule power_int_diff) simp
  then have b: "(2::rat) powi (53 - int k) = 2 ^ 53 / 2 ^ k"
    by (simp only: power_int_of_nat power_int_numeral)
  have "(of_nat N :: rat) < of_nat (2 ^ 53)" using N by (simp only: of_nat_less_iff)
  then have "(of_nat N :: rat) < 2 ^ 53" by simp
  then have "?x < 2 ^ 53 / 2 ^ k"
    by (rule divide_strict_right_mono) simp
  with a show False unfolding b by arith
qed


lemma round_half_even_of_int: "round_half_even (of_int z) = z"
  by (simp add: round_half_even_def)

lemma round_double_exact:
  assumes N: "N < 2 ^ 53" and k: "k \<le> 1074"
  shows "round_double (of_nat N / 2 ^ k) = Finite (of_nat N / 2 ^ k)"
proof (cases "N = 0")
  case True
  then show ?thesis by (simp add: round_double_def)
next
  case False
  define x :: rat where "x = of_nat N / 2 ^ k"
  have pos: "0 < x" using False by (simp add: x_def)
  define e where "e = max (floor_log2 \<bar>x\<bar>) (- 1022)"
  have "floor_log2 x \<le> 52 - int k"
    unfolding x_def by (rule floor_log2_dyadic) (use False N in simp_all)
  moreover have "\<bar>x\<bar> = x" using pos by simp
  ultimately have e: "e \<le> 52 - int k" using k by (simp add: e_def)
  have q: "x / 2 powi (e - 52) = of_int (int N * 2 ^ nat (52 - int k - e))"
    unfolding x_def dyadic_powi by (rule dyadic_scaled[OF e])
  have nz: "(2::rat) powi (e - 52) \<noteq> 0" by simp
  have r: "of_int (round_half_even (x / 2 powi (e - 52))) * 2 powi (e - 52) = x"
  proof -
    have "of_int (round_half_even (x / 2 powi (e - 52))) = x / 2 powi (e - 52)"
      unfolding q round_half_even_of_int ..
    then show ?thesis using nz by simp
  qed
  have "x \<le> of_nat N"
    unfolding x_def by (simp add: field_simps mult_le_cancel_left1)
  also have "\<dots> < of_nat (2 ^ 53)" using N by (simp only: of_nat_less_iff)
  also have "\<dots> < (2::rat) ^ 1024" by simp
  finally have small: "\<not> 2 ^ 1024 \<le> x" by simp
  have big: "\<not> x \<le> - (2 ^ 1024)" using pos by simp
  have nz: "x \<noteq> 0" using pos by simp
  have "round_double x = Finite x"
    unfolding round_double_def Let_def e_def[symmetric] r
    using small big nz by (simp only: if_False)
  then show ?thesis unfolding x_def .
qed


lemma power_is_double:
  assumes p: "3 ^ k < (2::nat) ^ 53"
  shows "round_double ((3 / 2) ^ k) = Finite ((3 / 2) ^ k)"
proof -
  have "(2::nat) ^ k \<le> 3 ^ k" by (rule power_mono) simp_all
  then have "(2::nat) ^ k < 2 ^ 53" using p by (rule le_less_trans)
  then have "k < 53" by (rule power_less_imp_less_exp[of 2, rotated]) simp
  then have k: "k \<le> 1074" by simp
  have pw: "((3::rat) / 2) ^ k = of_nat (3 ^ k) / 2 ^ k"
    by (simp add: power_divide)
  show ?thesis unfolding pw by (rule round_double_exact[OF p k])
qed

lemma backoff_exact:
  assumes e: "exact_on_doubles pw"
    and p: "3 ^ k < (2::nat) ^ 53" and b: "base * 3 ^ k < 2 ^ 53"
  shows "times_number base (pw (3 / 2) k) = Finite (of_nat base * (3 / 2) ^ k)"
proof -
  have "(2::nat) ^ k \<le> 3 ^ k" by (rule power_mono) simp_all
  then have "(2::nat) ^ k < 2 ^ 53" using p by (rule le_less_trans)
  then have "k < 53" by (rule power_less_imp_less_exp[of 2, rotated]) simp
  then have k: "k \<le> 1074" by simp
  have m: "pw (3 / 2) k = Finite ((3 / 2) ^ k)"
    using e power_is_double[OF p] unfolding exact_on_doubles_def by blast
  have pr: "of_nat base * ((3::rat) / 2) ^ k = of_nat (base * 3 ^ k) / 2 ^ k"
    by (simp add: power_divide)
  show ?thesis
    unfolding m times_number.simps pr by (rule round_double_exact[OF b k])
qed

lemma exact_nearest_power: "exact_on_doubles nearest_power"
  by (simp add: exact_on_doubles_def nearest_power_def)

lemma backoff_5000:
  "times_number 5000 (nearest_power (3 / 2) 0) = Finite 5000"
  "times_number 5000 (nearest_power (3 / 2) (Suc 0)) = Finite 7500"
  using backoff_exact[OF exact_nearest_power, of 0 5000]
    backoff_exact[OF exact_nearest_power, of "Suc 0" 5000] by simp_all

section \<open>The loops as state updates\<close>

lemma emit_each_eq:
  "emit_each ev cbs d s =
     s\<lparr>trace := trace s @ map (\<lambda>cb. Delivered ev cb d) cbs,
       console := console s @ map (\<lambda>cb. ''Error in event listener'')
                    (filter (\<lambda>cb. listener_throws s cb d) cbs)\<rparr>"
  by (induction cbs arbitrary: s)
     (simp_all add: call_listener_def record_effect_def console_error_def Let_def)

lemma emit_eq:
  "emit ev d s =
     s\<lparr>trace := trace s @ map (\<lambda>cb. Delivered ev cb d) (subscribers s ev),
       console := console s @ map (\<lambda>cb. ''Error in event listener'')
                    (filter (\<lambda>cb. listener_throws s cb d) (subscribers s ev))\<rparr>"
  by (simp add: emit_def subscribers_def emit_each_eq split: option.splits)

lemma forEach_update_eq:
  "forEach_update fs s =
     (if flush_throws (update_throws s) fs
      then Thrown CallbackError (s\<lparr>trace := trace s @ map Invoked (invoked_prefix (update_throws s) fs)\<rparr>)
      else Ok (s\<lparr>trace := trace s @ map Invoked (invoked_prefix (update_throws s) fs)\<rparr>))"
  by (induction fs arbitrary: s)
     (simp_all add: call_update_def record_effect_def Let_def)

lemma processUpdateQueue_eq:
  "processUpdateQueue s =
     s\<lparr>trace := trace s @ map Invoked (invoked_prefix (update_throws s) (updateQueue s)),
       console := console s @
         (if flush_throws (update_throws s) (updateQueue s)
          then [''Error processing update queue''] else []),
       updateQueue := [], updateTimer := None\<rparr>"
  by (simp add: processUpdateQueue_def forEach_update_eq console_error_def Let_def)

lemma cap_take: "(if k < length xs then take k xs else xs) = take k xs"
  by simp

lemma take_append_take: "take k (xs @ take k ys) = take k (xs @ ys)"
  by (simp add: min_def)

lemma length_take_Cons: "length (take k (n # old)) = min k (Suc (length old))"
  by simp

lemma storeNotification_eq:
  assumes "stored_list (storage s) = Some old"
  shows "storeNotification n s =
     Ok (s\<lparr>storage := ItemArray (take 50 (n # old)),
           notificationCount := min 50 (Suc (length old))\<rparr>)"
proof -
  have item: "storage s = NoItem \<and> old = [] \<or> storage s = ItemArray old"
    using assms by (cases "storage s") (simp_all add: stored_list_def)
  have c: "\<And>xs::notification list. (if 50 < length xs then take 50 xs else xs) = take 50 xs"
    by (rule cap_take)
  from item show ?thesis
    unfolding storeNotification_def updateNotificationCount_def Let_def c length_take_Cons
    by (elim disjE conjE) (simp_all only: storage_item.case)
qed

lemma storeAll_eq:
  "stored_list (storage s) = Some old \<Longrightarrow> ns \<noteq> [] \<Longrightarrow>
   storeAll ns s =
     Ok (s\<lparr>storage := ItemArray (take 50 (rev ns @ old)),
           notificationCount := min 50 (length ns + length old)\<rparr>)"
proof (induction ns arbitrary: s old)
  case Nil
  then show ?case by simp
next
  case (Cons n ns)
  let ?s1 = "s\<lparr>storage := ItemArray (take 50 (n # old)),
           notificationCount := min 50 (Suc (length old))\<rparr>"
  have st: "storeNotification n s = Ok ?s1"
    using Cons.prems(1) by (rule storeNotification_eq)
  show ?case
  proof (cases "ns = []")
    case True
    then show ?thesis using st by (simp del: take_Cons_numeral)
  next
    case False
    have sl: "stored_list (storage ?s1) = Some (take 50 (n # old))"
      by (simp add: stored_list_def del: take_Cons_numeral)
    have a: "storeAll ns ?s1 = Ok (?s1\<lparr>storage := ItemArray (take 50 (rev ns @ take 50 (n # old))),
           notificationCount := min 50 (length ns + length (take 50 (n # old)))\<rparr>)"
      by (rule Cons.IH[OF sl False])
    have b: "take 50 (rev ns @ take 50 (n # old)) = take 50 (rev (n # ns) @ old)"
      by (simp add: take_append_take del: take_Cons_numeral take_append)
    have c: "min 50 (length ns + length (take 50 (n # old))) = min 50 (length (n # ns) + length old)"
      by (simp add: min_def del: take_Cons_numeral)
    show ?thesis
      using st a unfolding b c by (simp del: take_Cons_numeral take_append)
  qed
qed

lemma take_rev_51:
  assumes "length ns = Suc k"
  shows "take k (rev ns @ old) = rev (tl ns)"
proof -
  obtain n ms where ns: "ns = n # ms" using assms by (cases ns) auto
  then have "length ms = k" using assms by simp
  then show ?thesis using ns by simp
qed

lemma sample_client_eq:
  "sample_client =
     \<lparr>options = default_options, websocket = None, isConnected = False, reconnectAttempts = 0,
      lastHeartbeat = None, heartbeatTimer = None, updateQueue = [], updateTimer = None,
      listeners = Map.empty, pollingInterval = Some 1,
      sockets = [],
      timers = [\<lparr>handle = 1, callback = PollMetrics, delay = Finite 15000, repeats = True\<rparr>],
      next_timer = 2, clock = 0, storage = NoItem, connectionStatus = ''polling'',
      notificationCount = 0, inflight = 0, trace = [], console = [],
      listener_throws = (\<lambda>cb data. cb = 8),
      update_throws = (\<lambda>f. f = ExternalFn 8),
      watching = (\<lambda>v. False),
      invalid_selector = (\<lambda>v. False),
      math_pow = nearest_power\<rparr>"
  by (simp add: sample_client_def constructor_def init_def startPollingFallback_def setInterval_def
        setTimer_def updateConnectionStatus_def sample_env_def)

section \<open>Invariants of the event loop\<close>

subsection \<open>Well-formedness is preserved\<close>

lemma same_core_refl: "same_core s s"
  by (simp add: same_core_def)

lemma same_core_trans: "same_core s s1 \<Longrightarrow> same_core s1 s2 \<Longrightarrow> same_core s s2"
  by (simp add: same_core_def)

lemma well_formed_same_core: "same_core s s' \<Longrightarrow> well_formed s' = well_formed s"
  by (simp add: same_core_def well_formed_def tracked_def timers_ok_def sockets_ok_def)

lemma same_core_emit: "same_core s (emit e d s)"
  by (simp add: same_core_def emit_eq)

lemma same_core_andThen:
  "same_core s (final r) \<Longrightarrow> (\<And>s1. same_core s s1 \<Longrightarrow> same_core s (final (f s1)))
   \<Longrightarrow> same_core s (final (andThen r f))"
  by (cases r) simp_all

lemma same_core_storeNotification: "same_core s (final (storeNotification n s))"
  by (simp add: same_core_def storeNotification_def updateNotificationCount_def Let_def
      split: storage_item.splits)

lemma same_core_showNotification: "same_core s (final (showNotification m ty opts s))"
  unfolding showNotification_def Let_def
  by (rule same_core_andThen[OF same_core_storeNotification])
     (simp add: same_core_trans[OF _ same_core_emit])

lemma tracked_None: "tracked s cb None"
  by (simp add: tracked_def)

text \<open>Adding a timer under a fresh handle.\<close>

lemma timers_ok_add:
  assumes "timers_ok s"
    and "cb = FlushUpdates \<Longrightarrow> \<not> rep \<and> (\<forall>t\<in>set (timers s). callback t \<noteq> FlushUpdates)"
    and "cb = PollMetrics \<Longrightarrow> rep"
    and "timers s' = timers s @ [\<lparr>handle = next_timer s, callback = cb, delay = d, repeats = rep\<rparr>]"
    and "next_timer s' = Suc (next_timer s)"
    and "updateTimer s' = (if cb = FlushUpdates then Some (next_timer s) else updateTimer s)"
  shows "timers_ok s'"
  using assms unfolding timers_ok_def
  by (auto simp: less_Suc_eq)

lemma tracked_add_other:
  assumes "tracked s cb ho"
    and "timers s' = timers s @ [t]" and "handle t = next_timer s"
    and "next_timer s' = Suc (next_timer s)"
  shows "tracked s' cb ho"
  using assms unfolding tracked_def by (auto simp: less_Suc_eq)

lemma tracked_add_self:
  assumes "timers_ok s"
    and "timers s' = timers s @ [t]" and "handle t = next_timer s" and "callback t = cb"
    and "next_timer s' = Suc (next_timer s)"
  shows "tracked s' cb (Some (next_timer s))"
  using assms unfolding tracked_def timers_ok_def by auto

text \<open>Cancelling a timer.\<close>

lemma timers_ok_clear:
  assumes "timers_ok s"
    and "timers s' = filter (\<lambda>t. handle t \<noteq> h) (timers s)"
    and "next_timer s' = next_timer s" and "updateTimer s' = updateTimer s"
  shows "timers_ok s'"
  using assms unfolding timers_ok_def by (auto simp: distinct_map_filter)

lemma tracked_clear:
  assumes "tracked s cb ho"
    and "timers s' = filter (\<lambda>t. handle t \<noteq> h) (timers s)"
    and "next_timer s' = next_timer s"
  shows "tracked s' cb ho"
  using assms unfolding tracked_def by auto

lemma no_flush_pending:
  "timers_ok s \<Longrightarrow> \<not> truthy (updateTimer s) \<Longrightarrow> \<forall>t\<in>set (timers s). callback t \<noteq> FlushUpdates"
  unfolding timers_ok_def by (cases "updateTimer s") auto

lemma well_formed_add_timer:
  assumes w: "well_formed s"
    and T: "timers s' = timers s @ [\<lparr>handle = next_timer s, callback = cb, delay = d, repeats = rep\<rparr>]"
    and N: "next_timer s' = Suc (next_timer s)"
    and S: "websocket s' = websocket s" "sockets s' = sockets s" "isConnected s' = isConnected s"
    and H: "heartbeatTimer s' = (if cb = HeartbeatPing then Some (next_timer s) else heartbeatTimer s)"
    and U: "updateTimer s' = (if cb = FlushUpdates then Some (next_timer s) else updateTimer s)"
    and P: "pollingInterval s' = (if cb = PollMetrics then Some (next_timer s) else pollingInterval s)"
    and F: "cb = FlushUpdates \<Longrightarrow> \<not> rep \<and> \<not> truthy (updateTimer s)"
    and R: "cb = PollMetrics \<Longrightarrow> rep"
  shows "well_formed s'"
proof -
  from w have ok: "timers_ok s" and so: "sockets_ok s"
    and th: "tracked s HeartbeatPing (heartbeatTimer s)"
    and tu: "tracked s FlushUpdates (updateTimer s)"
    and tp: "tracked s PollMetrics (pollingInterval s)"
    by (simp_all add: well_formed_def)
  let ?t = "\<lparr>handle = next_timer s, callback = cb, delay = d, repeats = rep\<rparr>"
  have ht: "handle ?t = next_timer s" and ct: "callback ?t = cb" by simp_all
  have 1: "timers_ok s'"
  proof (rule timers_ok_add[OF ok _ _ T N U])
    assume "cb = FlushUpdates"
    then show "\<not> rep \<and> (\<forall>t\<in>set (timers s). callback t \<noteq> FlushUpdates)"
      using F no_flush_pending[OF ok] by blast
  next
    assume "cb = PollMetrics" then show rep by (rule R)
  qed
  have 2: "sockets_ok s'"
    using so S by (simp add: sockets_ok_def)
  have 3: "tracked s' HeartbeatPing (heartbeatTimer s')"
  proof (cases "cb = HeartbeatPing")
    case True
    then show ?thesis using tracked_add_self[OF ok T ht ct N] H by simp
  next
    case False
    then show ?thesis using tracked_add_other[OF th T ht N] H by simp
  qed
  have 4: "tracked s' FlushUpdates (updateTimer s')"
  proof (cases "cb = FlushUpdates")
    case True
    then show ?thesis using tracked_add_self[OF ok T ht ct N] U by simp
  next
    case False
    then show ?thesis using tracked_add_other[OF tu T ht N] U by simp
  qed
  have 5: "tracked s' PollMetrics (pollingInterval s')"
  proof (cases "cb = PollMetrics")
    case True
    then show ?thesis using tracked_add_self[OF ok T ht ct N] P by simp
  next
    case False
    then show ?thesis using tracked_add_other[OF tp T ht N] P by simp
  qed
  show ?thesis using 1 2 3 4 5 by (simp add: well_formed_def)
qed

lemma well_formed_clear_timer:
  assumes w: "well_formed s"
    and T: "timers s' = filter (\<lambda>t. handle t \<noteq> h) (timers s)"
    and N: "next_timer s' = next_timer s"
    and S: "websocket s' = websocket s" "sockets s' = sockets s" "isConnected s' = isConnected s"
    and H: "heartbeatTimer s' = heartbeatTimer s \<or> heartbeatTimer s' = None"
    and U: "updateTimer s' = updateTimer s"
    and P: "pollingInterval s' = pollingInterval s \<or> pollingInterval s' = None"
  shows "well_formed s'"
proof -
  from w have ok: "timers_ok s" and so: "sockets_ok s"
    and th: "tracked s HeartbeatPing (heartbeatTimer s)"
    and tu: "tracked s FlushUpdates (updateTimer s)"
    and tp: "tracked s PollMetrics (pollingInterval s)"
    by (simp_all add: well_formed_def)
  have 1: "timers_ok s'" by (rule timers_ok_clear[OF ok T N U])
  have 2: "sockets_ok s'" using so S by (simp add: sockets_ok_def)
  have 3: "tracked s' HeartbeatPing (heartbeatTimer s')"
    using H tracked_clear[OF th T N] by (auto simp: tracked_None)
  have 4: "tracked s' FlushUpdates (updateTimer s')"
    using U tracked_clear[OF tu T N] by simp
  have 5: "tracked s' PollMetrics (pollingInterval s')"
    using P tracked_clear[OF tp T N] by (auto simp: tracked_None)
  show ?thesis using 1 2 3 4 5 by (simp add: well_formed_def)
qed

lemma well_formed_sockets:
  assumes w: "well_formed s"
    and T: "timers s' = timers s" "next_timer s' = next_timer s"
      "heartbeatTimer s' = heartbeatTimer s" "updateTimer s' = updateTimer s"
      "pollingInterval s' = pollingInterval s"
    and S: "sockets_ok s'"
  shows "well_formed s'"
  using w T S by (simp add: well_formed_def timers_ok_def tracked_def)

lemma well_formed_queueUpdate: "well_formed s \<Longrightarrow> well_formed (queueUpdate f s)"
proof (cases "truthy (updateTimer s)")
  case True
  assume "well_formed s"
  moreover from True have "same_core s (queueUpdate f s)"
    by (simp add: queueUpdate_def same_core_def Let_def)
  ultimately show ?thesis by (simp add: well_formed_same_core)
next
  case False
  assume w: "well_formed s"
  show ?thesis
    by (rule well_formed_add_timer[OF w, where cb = FlushUpdates and rep = False
          and d = "Finite (of_nat (updateThrottle (options s)))"])
       (simp_all add: False queueUpdate_def setTimeout_def setTimer_def Let_def)
qed

lemma well_formed_startHeartbeat: "well_formed s \<Longrightarrow> well_formed (startHeartbeat s)"
  by (erule well_formed_add_timer[where cb = HeartbeatPing and rep = True
        and d = "Finite (of_nat (heartbeatInterval (options s)))"])
     (simp_all add: startHeartbeat_def setInterval_def setTimer_def)

lemma well_formed_startPollingFallback: "well_formed s \<Longrightarrow> well_formed (startPollingFallback s)"
  by (erule well_formed_add_timer[where cb = PollMetrics and rep = True and d = "Finite 15000"])
     (simp_all add: startPollingFallback_def setInterval_def setTimer_def
        updateConnectionStatus_def)

lemma well_formed_scheduleReconnect: "well_formed s \<Longrightarrow> well_formed (scheduleReconnect s)"
  by (erule well_formed_add_timer[where cb = ReconnectAttempt and rep = False
        and d = "times_number (reconnectInterval (options s))
                   (math_pow s (3 / 2) (reconnectAttempts s))"])
     (simp_all add: scheduleReconnect_def setTimeout_def setTimer_def Let_def)

lemma well_formed_connect: "well_formed s \<Longrightarrow> well_formed (connect s)"
proof (cases "case websocket s of None \<Rightarrow> False | Some w \<Rightarrow> readyState s w = OPEN")
  case True
  then show "well_formed s \<Longrightarrow> well_formed (connect s)" by (simp add: connect_def)
next
  case False
  assume w: "well_formed s"
  let ?s1 = "s\<lparr>sockets := sockets s @ [CONNECTING], websocket := Some (length (sockets s))\<rparr>"
  have 1: "well_formed ?s1"
    by (rule well_formed_sockets[OF w]) (simp_all add: sockets_ok_def)
  have "well_formed (snd (setTimeout ConnectionTimeout (Finite 5000) ?s1))"
    by (rule well_formed_add_timer[OF 1, where cb = ConnectionTimeout and rep = False and d = "Finite 5000"])
       (simp_all add: setTimeout_def setTimer_def)
  then show ?thesis using False by (simp add: connect_def Let_def)
qed

lemma well_formed_clearTimer: "well_formed s \<Longrightarrow> well_formed (clearTimer h s)"
  by (erule well_formed_clear_timer[where h = h]) (simp_all add: clearTimer_def)

lemma well_formed_stopHeartbeat: "well_formed s \<Longrightarrow> well_formed (stopHeartbeat s)"
proof (cases "truthy (heartbeatTimer s)")
  case True
  then obtain h where h: "heartbeatTimer s = Some h" "h \<noteq> 0"
    by (cases "heartbeatTimer s") auto
  assume "well_formed s"
  then show ?thesis
    by (rule well_formed_clear_timer[where h = h])
       (simp_all add: stopHeartbeat_def clearTimer_def h)
next
  case False
  then have "stopHeartbeat s = s"
    by (cases "heartbeatTimer s") (simp_all add: stopHeartbeat_def)
  then show "well_formed s \<Longrightarrow> well_formed (stopHeartbeat s)" by simp
qed

lemma well_formed_stopPollingFallback: "well_formed s \<Longrightarrow> well_formed (stopPollingFallback s)"
proof (cases "truthy (pollingInterval s)")
  case True
  then obtain h where h: "pollingInterval s = Some h" "h \<noteq> 0"
    by (cases "pollingInterval s") auto
  assume "well_formed s"
  then show ?thesis
    by (rule well_formed_clear_timer[where h = h])
       (simp_all add: stopPollingFallback_def clearTimer_def h)
next
  case False
  then have "stopPollingFallback s = s"
    by (cases "pollingInterval s") (simp_all add: stopPollingFallback_def)
  then show "well_formed s \<Longrightarrow> well_formed (stopPollingFallback s)" by simp
qed

lemma well_formed_ws_close:
  assumes "well_formed s"
  shows "well_formed (ws_close w c s)"
proof (rule well_formed_sockets[OF assms])
  from assms have "sockets_ok s" by (simp add: well_formed_def)
  then show "sockets_ok (ws_close w c s)"
    by (simp add: ws_close_def record_effect_def Let_def sockets_ok_def)
qed (simp_all add: ws_close_def record_effect_def Let_def)

lemma well_formed_andThen:
  "well_formed (final r) \<Longrightarrow> (\<And>s1. well_formed s1 \<Longrightarrow> well_formed (final (f s1)))
   \<Longrightarrow> well_formed (final (andThen r f))"
  by (cases r) simp_all

lemma well_formed_emit: "well_formed (emit e d s) = well_formed s"
  by (rule well_formed_same_core[OF same_core_emit])

lemma well_formed_showNotification:
  "well_formed (final (showNotification m ty opts s)) = well_formed s"
  by (rule well_formed_same_core[OF same_core_showNotification])

lemma well_formed_updateConnectionStatus:
  "well_formed (updateConnectionStatus st s) = well_formed s"
  by (rule well_formed_same_core) (simp add: same_core_def updateConnectionStatus_def)

lemma well_formed_console_error: "well_formed (console_error m s) = well_formed s"
  by (rule well_formed_same_core) (simp add: same_core_def console_error_def)

lemma well_formed_send: "well_formed (final (send d s)) = well_formed s"
  by (rule well_formed_same_core)
     (simp add: same_core_def send_def ws_send_def record_effect_def split: option.splits)

lemma well_formed_handleMetricsUpdate:
  "well_formed s \<Longrightarrow> well_formed (handleMetricsUpdate p s)"
  by (simp add: handleMetricsUpdate_def well_formed_emit well_formed_queueUpdate)

lemma same_core_Ok_emit: "same_core s s1 \<Longrightarrow> same_core s (emit e d s1)"
  by (simp add: same_core_trans[OF _ same_core_emit])

lemma handleAgentStatusChange_invalid:
  "\<not> nullish p \<Longrightarrow> invalid_selector s (field p ''agent_id'')
   \<Longrightarrow> handleAgentStatusChange p s = Thrown SyntaxError s"
  by (simp add: handleAgentStatusChange_def updateAgentStatusInUI_def Let_def)

lemma handleAgentStatusChange_valid:
  assumes "\<not> nullish p" and "\<not> invalid_selector s (field p ''agent_id'')"
  shows "handleAgentStatusChange p s =
     andThen
       (if field p ''new_status'' = JStr ''failed''
        then showNotification [Lit ''Agent '', Interp (field p ''agent_id''), Lit '' has failed'']
               ''warning'' \<lparr>icon = ''alert-triangle'', duration = None, details = None\<rparr> s
        else if field p ''old_status'' = JStr ''failed'' \<and> field p ''new_status'' = JStr ''idle''
        then showNotification
               [Lit ''Agent '', Interp (field p ''agent_id''), Lit '' has recovered'']
               ''success'' \<lparr>icon = ''check-circle'', duration = None, details = None\<rparr> s
        else Ok s)
       (\<lambda>s1. Ok (emit ''agent_status_change'' (AValue p) s1))"
  unfolding handleAgentStatusChange_def updateAgentStatusInUI_def Let_def
    if_not_P[OF assms(1)] if_not_P[OF assms(2)] andThen.simps ..

lemma handleTaskStatusChange_invalid:
  "\<not> nullish p \<Longrightarrow> invalid_selector s (field p ''task_id'')
   \<Longrightarrow> handleTaskStatusChange p s = Thrown SyntaxError s"
  by (simp add: handleTaskStatusChange_def updateTaskStatusInUI_def Let_def)

lemma handleTaskStatusChange_valid:
  assumes "\<not> nullish p" and "\<not> invalid_selector s (field p ''task_id'')"
  shows "handleTaskStatusChange p s =
     andThen
       (if watching s (field p ''task_id'')
        then (if field p ''new_status'' = JStr ''completed''
              then (case slice8 (field p ''task_id'') of
                      None \<Rightarrow> Thrown TypeError s
                    | Some t \<Rightarrow>
                        showNotification
                          [Lit ''Task '', Interp t, Lit '' completed successfully'']
                          ''success''
                          \<lparr>icon = ''check-circle'', duration = Some 5000, details = None\<rparr> s)
              else if field p ''new_status'' = JStr ''failed''
              then (case slice8 (field p ''task_id'') of
                      None \<Rightarrow> Thrown TypeError s
                    | Some t \<Rightarrow>
                        showNotification [Lit ''Task '', Interp t, Lit '' failed'']
                          ''error''
                          \<lparr>icon = ''x-circle'', duration = Some 7000, details = None\<rparr> s)
              else Ok s)
        else Ok s)
       (\<lambda>s1. Ok (emit ''task_status_change'' (AValue p) s1))"
  using assms
  by (simp add: handleTaskStatusChange_def updateTaskStatusInUI_def isUserWatchingTask_def
      Let_def)

lemma same_core_handleAgentStatusChange:
  "same_core s (final (handleAgentStatusChange p s))"
proof (cases "nullish p")
  case True
  then show ?thesis by (simp add: handleAgentStatusChange_def same_core_refl)
next
  case False
  show ?thesis
  proof (cases "invalid_selector s (field p ''agent_id'')")
    case True
    show ?thesis
      unfolding handleAgentStatusChange_invalid[OF False True] by (simp add: same_core_refl)
  next
    case valid: False
    show ?thesis
      unfolding handleAgentStatusChange_valid[OF False valid]
      by (rule same_core_andThen)
         (simp_all add: same_core_showNotification same_core_refl same_core_Ok_emit)
  qed
qed

lemma same_core_handleTaskStatusChange:
  "same_core s (final (handleTaskStatusChange p s))"
proof (cases "nullish p")
  case True
  then show ?thesis by (simp add: handleTaskStatusChange_def same_core_refl)
next
  case False
  show ?thesis
  proof (cases "invalid_selector s (field p ''task_id'')")
    case True
    show ?thesis
      unfolding handleTaskStatusChange_invalid[OF False True] by (simp add: same_core_refl)
  next
    case valid: False
    show ?thesis
      unfolding handleTaskStatusChange_valid[OF False valid]
      by (rule same_core_andThen)
         (simp_all add: same_core_showNotification same_core_refl same_core_Ok_emit
            split: option.splits)
  qed
qed

lemma same_core_handleSystemAlert:
  "same_core s (final (handleSystemAlert p s))"
proof (cases "nullish p")
  case True
  then show ?thesis by (simp add: handleSystemAlert_def same_core_refl)
next
  case False
  show ?thesis
    unfolding handleSystemAlert_def Let_def if_not_P[OF False]
    by (rule same_core_andThen)
       (simp_all add: same_core_showNotification same_core_refl same_core_Ok_emit)
qed

lemma well_formed_handlePoolScaling:
  assumes "well_formed s"
  shows "well_formed (final (handlePoolScaling p s))"
proof (cases "nullish p")
  case True
  then show ?thesis using assms by (simp add: handlePoolScaling_def)
next
  case False
  show ?thesis
    unfolding handlePoolScaling_def Let_def if_not_P[OF False]
    by (rule well_formed_andThen)
       (simp_all add: assms well_formed_showNotification well_formed_emit well_formed_queueUpdate)
qed

lemma well_formed_dispatch:
  assumes "well_formed s"
  shows "well_formed (final
            (if t = JStr ''pong'' then Ok s
             else if t = JStr ''metrics_update''
               then Ok (handleMetricsUpdate pl s)
             else if t = JStr ''agent_status_change''
               then handleAgentStatusChange pl s
             else if t = JStr ''task_status_change''
               then handleTaskStatusChange pl s
             else if t = JStr ''system_alert''
               then handleSystemAlert pl s
             else if t = JStr ''pool_scaling''
               then handlePoolScaling pl s
             else Ok s))"
  using assms
  by (simp add: well_formed_handleMetricsUpdate well_formed_handlePoolScaling
      well_formed_same_core[OF same_core_handleAgentStatusChange]
      well_formed_same_core[OF same_core_handleTaskStatusChange]
      well_formed_same_core[OF same_core_handleSystemAlert])

lemma well_formed_processRealTimeUpdate:
  assumes "well_formed s"
  shows "well_formed (final (processRealTimeUpdate d s))"
proof (cases "getProp d ''type''")
  case None
  then show ?thesis using assms by (simp add: processRealTimeUpdate_def)
next
  case (Some t)
  show ?thesis
    unfolding processRealTimeUpdate_def Some option.case
    by (rule well_formed_andThen[OF well_formed_dispatch[OF assms]])
       (simp add: well_formed_emit)
qed

lemma well_formed_handleWebSocketMessage:
  assumes "well_formed s"
  shows "well_formed (handleWebSocketMessage parsed s)"
proof (cases parsed)
  case None
  then show ?thesis
    using assms by (simp add: handleWebSocketMessage_def well_formed_console_error)
next
  case (Some d)
  have w: "well_formed (final (processRealTimeUpdate d s))"
    by (rule well_formed_processRealTimeUpdate[OF assms])
  show ?thesis
  proof (cases "processRealTimeUpdate d s")
    case (Ok s')
    then show ?thesis using w Some by (simp add: handleWebSocketMessage_def)
  next
    case (Thrown e s')
    then show ?thesis
      using w Some by (simp add: handleWebSocketMessage_def well_formed_console_error)
  qed
qed

lemma well_formed_pollResponse: "well_formed s \<Longrightarrow> well_formed (pollResponse r s)"
  by (cases r)
     (simp_all add: pollResponse_def well_formed_handleMetricsUpdate well_formed_console_error)

lemma well_formed_handleWebSocketError:
  "well_formed s \<Longrightarrow> well_formed (handleWebSocketError s)"
  by (simp add: handleWebSocketError_def well_formed_updateConnectionStatus well_formed_emit
      well_formed_console_error)

lemma well_formed_handleWebSocketOpen:
  assumes "well_formed s" and "websocket s \<noteq> None"
  shows "well_formed (handleWebSocketOpen s)"
proof -
  have "well_formed (s\<lparr>isConnected := True, reconnectAttempts := 0\<rparr>)"
  proof (rule well_formed_sockets[OF assms(1)])
    from assms show "sockets_ok (s\<lparr>isConnected := True, reconnectAttempts := 0\<rparr>)"
      by (simp add: well_formed_def sockets_ok_def)
  qed simp_all
  then show ?thesis
    by (simp add: handleWebSocketOpen_def well_formed_updateConnectionStatus well_formed_emit
        well_formed_startHeartbeat)
qed

lemma well_formed_handleWebSocketClose:
  assumes "well_formed s"
  shows "well_formed (handleWebSocketClose code s)"
proof -
  have "well_formed (s\<lparr>isConnected := False\<rparr>)"
  proof (rule well_formed_sockets[OF assms])
    from assms show "sockets_ok (s\<lparr>isConnected := False\<rparr>)"
      by (simp add: well_formed_def sockets_ok_def)
  qed simp_all
  then have "well_formed (updateConnectionStatus ''disconnected''
                 (emit ''disconnected'' (AValue JUndefined)
                    (stopHeartbeat (s\<lparr>isConnected := False\<rparr>))))"
    by (simp add: well_formed_updateConnectionStatus well_formed_emit well_formed_stopHeartbeat)
  then show ?thesis
    unfolding handleWebSocketClose_def Let_def
    by (simp add: well_formed_scheduleReconnect well_formed_startPollingFallback)
qed

lemma well_formed_opt_close:
  "well_formed s \<Longrightarrow> well_formed (case x of None \<Rightarrow> s | Some w \<Rightarrow> ws_close w c s)"
  by (cases x) (simp_all add: well_formed_ws_close)

lemma well_formed_opt_clear:
  "well_formed s \<Longrightarrow>
   well_formed (case x of None \<Rightarrow> s | Some h \<Rightarrow> if h \<noteq> 0 then clearTimer h s else s)"
  by (cases x) (simp_all add: well_formed_clearTimer)

lemma well_formed_listeners: "well_formed (s\<lparr>listeners := l\<rparr>) = well_formed s"
  by (rule well_formed_same_core) (simp add: same_core_def)

lemma well_formed_cleanup:
  assumes "well_formed s"
  shows "well_formed (cleanup s)"
  unfolding cleanup_def Let_def well_formed_listeners
  by (intro well_formed_opt_clear well_formed_opt_close well_formed_stopPollingFallback
        well_formed_stopHeartbeat assms)

lemma well_formed_processUpdateQueue:
  assumes "well_formed s" and "\<forall>t\<in>set (timers s). callback t \<noteq> FlushUpdates"
  shows "well_formed (processUpdateQueue s)"
  using assms unfolding processUpdateQueue_eq well_formed_def timers_ok_def sockets_ok_def tracked_def
  by simp

lemma well_formed_connectionTimeout:
  "well_formed s \<Longrightarrow> well_formed (final (connectionTimeout s))"
  by (cases "websocket s") (simp_all add: connectionTimeout_def well_formed_ws_close)

lemma same_core_heartbeatTick: "same_core s (final (heartbeatTick s))"
  by (cases "websocket s")
     (simp_all add: heartbeatTick_def ws_send_def record_effect_def same_core_def)

lemma same_core_pollTick: "same_core s (pollTick s)"
  by (simp add: pollTick_def record_effect_def same_core_def)

lemma flush_timer_unique:
  assumes "timers_ok s" and "t \<in> set (timers s)" and "callback t = FlushUpdates"
  shows "\<not> repeats t"
    and "\<forall>u\<in>set (filter (\<lambda>u. handle u \<noteq> handle t) (timers s)). callback u \<noteq> FlushUpdates"
proof -
  have a: "\<forall>u\<in>set (timers s). callback u = FlushUpdates \<longrightarrow>
           updateTimer s = Some (handle u) \<and> \<not> repeats u"
    using assms(1) by (simp add: timers_ok_def)
  from a assms(2,3) have ut: "updateTimer s = Some (handle t)" and nr: "\<not> repeats t"
    by blast+
  show "\<not> repeats t" by (rule nr)
  show "\<forall>u\<in>set (filter (\<lambda>u. handle u \<noteq> handle t) (timers s)). callback u \<noteq> FlushUpdates"
  proof
    fix u assume "u \<in> set (filter (\<lambda>u. handle u \<noteq> handle t) (timers s))"
    then have u: "u \<in> set (timers s)" "handle u \<noteq> handle t" by simp_all
    show "callback u \<noteq> FlushUpdates"
    proof
      assume "callback u = FlushUpdates"
      with a u(1) have "updateTimer s = Some (handle u)" by blast
      with ut u(2) show False by simp
    qed
  qed
qed

lemma well_formed_reconnectTick: "well_formed s \<Longrightarrow> well_formed (reconnectTick s)"
  by (simp add: reconnectTick_def well_formed_connect)

lemma well_formed_fire:
  assumes w: "well_formed s" and t: "t \<in> set (timers s)"
  shows "well_formed (fire t s)"
proof -
  let ?s1 = "if repeats t then s else clearTimer (handle t) s"
  have w1: "well_formed ?s1" using w by (simp add: well_formed_clearTimer)
  show ?thesis
  proof (cases "callback t")
    case ConnectionTimeout
    show ?thesis
      unfolding fire_def Let_def ConnectionTimeout timer_callback.case
      by (rule well_formed_connectionTimeout[OF w1])
  next
    case ReconnectAttempt
    show ?thesis
      unfolding fire_def Let_def ReconnectAttempt timer_callback.case
      by (rule well_formed_reconnectTick[OF w1])
  next
    case HeartbeatPing
    show ?thesis
      unfolding fire_def Let_def HeartbeatPing timer_callback.case
      using w1 by (simp only: well_formed_same_core[OF same_core_heartbeatTick])
  next
    case FlushUpdates
    from w have ok: "timers_ok s" by (simp add: well_formed_def)
    have nr: "\<not> repeats t" by (rule flush_timer_unique(1)[OF ok t FlushUpdates])
    have "\<forall>u\<in>set (timers (clearTimer (handle t) s)). callback u \<noteq> FlushUpdates"
      using flush_timer_unique(2)[OF ok t FlushUpdates] by (simp add: clearTimer_def)
    then have "well_formed (processUpdateQueue (clearTimer (handle t) s))"
      by (rule well_formed_processUpdateQueue[OF well_formed_clearTimer[OF w]])
    then show ?thesis using FlushUpdates nr by (simp add: fire_def)
  next
    case PollMetrics
    show ?thesis
      unfolding fire_def Let_def PollMetrics timer_callback.case
      using w1 by (simp only: well_formed_same_core[OF same_core_pollTick])
  qed
qed

lemma well_formed_sockets_update:
  assumes "well_formed s"
  shows "well_formed (s\<lparr>sockets := (sockets s)[w := r]\<rparr>)"
proof (rule well_formed_sockets[OF assms])
  from assms show "sockets_ok (s\<lparr>sockets := (sockets s)[w := r]\<rparr>)"
    by (auto simp: well_formed_def sockets_ok_def)
qed simp_all

lemma well_formed_step:
  assumes w: "well_formed s"
  shows "well_formed (step ev s)"
proof (cases ev)
  case CallConnect
  then show ?thesis using w by (simp add: step_def well_formed_connect)
next
  case (CallSend d)
  then show ?thesis using w by (simp add: step_def well_formed_send)
next
  case (CallOn e cb)
  then show ?thesis using w by (simp add: step_def on_def Let_def well_formed_listeners)
next
  case (CallOff e cb)
  then show ?thesis using w
    by (cases "listeners s e") (simp_all add: step_def off_def well_formed_listeners)
next
  case (CallQueueUpdate f)
  then show ?thesis using w by (simp add: step_def well_formed_queueUpdate)
next
  case CallClearNotifications
  have "same_core s (clearNotifications s)"
    by (simp add: same_core_def clearNotifications_def updateNotificationCount_def)
  then have "well_formed (clearNotifications s)"
    using w by (rule well_formed_same_core[THEN iffD2])
  then show ?thesis using CallClearNotifications by (simp add: step_def)
next
  case BeforeUnload
  then show ?thesis using w by (simp add: step_def well_formed_cleanup)
next
  case (SocketOpens x)
  show ?thesis
  proof (cases "x < length (sockets s) \<and> readyState s x = CONNECTING")
    case True
    then have ne: "websocket (s\<lparr>sockets := (sockets s)[x := OPEN]\<rparr>) \<noteq> None"
      using w by (auto simp: well_formed_def sockets_ok_def)
    show ?thesis
      using True SocketOpens
        well_formed_handleWebSocketOpen[OF well_formed_sockets_update[OF w] ne]
      by (simp add: step_def)
  next
    case False
    then show ?thesis using w SocketOpens by (auto simp: step_def)
  qed
next
  case (SocketMessage x parsed)
  then show ?thesis using w by (simp add: step_def well_formed_handleWebSocketMessage)
next
  case (SocketError x)
  then show ?thesis using w by (simp add: step_def well_formed_handleWebSocketError)
next
  case (SocketCloses x code)
  then show ?thesis using w
    by (simp add: step_def well_formed_handleWebSocketClose well_formed_sockets_update)
next
  case (TimerFires h)
  show ?thesis
  proof (cases "find (\<lambda>t. handle t = h) (timers s)")
    case None
    then show ?thesis using w TimerFires by (simp add: step_def)
  next
    case (Some t)
    then have "t \<in> set (timers s)" by (auto simp: find_Some_iff)
    then show ?thesis using w TimerFires Some by (simp add: step_def well_formed_fire)
  qed
next
  case (PollResponse r)
  have "same_core s (s\<lparr>inflight := inflight s - 1\<rparr>)"
    by (simp add: same_core_def)
  then have "well_formed (s\<lparr>inflight := inflight s - 1\<rparr>)"
    using w by (rule well_formed_same_core[THEN iffD2])
  then show ?thesis using w PollResponse by (simp add: step_def well_formed_pollResponse)
next
  case PageHidden
  then show ?thesis using w by (simp add: step_def handlePageHidden_def well_formed_send)
next
  case PageVisible
  then show ?thesis using w
    by (simp add: step_def handlePageVisible_def well_formed_send well_formed_connect)
next
  case NetworkOnline
  then show ?thesis using w by (simp add: step_def handleNetworkOnline_def well_formed_connect)
next
  case NetworkOffline
  then show ?thesis using w
    by (simp add: step_def handleNetworkOffline_def well_formed_updateConnectionStatus)
next
  case (TimePasses d)
  have "same_core s (s\<lparr>clock := clock s + d\<rparr>)"
    by (simp add: same_core_def)
  then have "well_formed (s\<lparr>clock := clock s + d\<rparr>)"
    using w by (rule well_formed_same_core[THEN iffD2])
  then show ?thesis using TimePasses by (simp add: step_def)
qed

lemma well_formed_run: "well_formed s \<Longrightarrow> well_formed (run evs s)"
  by (induction evs arbitrary: s) (simp_all add: well_formed_step)

lemma well_formed_constructor: "well_formed (constructor opts env)"
  by (simp add: constructor_def init_def startPollingFallback_def setInterval_def setTimer_def
      updateConnectionStatus_def well_formed_def timers_ok_def sockets_ok_def tracked_def)

lemma well_formed_reachable: "well_formed (run evs (constructor opts env))"
  by (rule well_formed_run[OF well_formed_constructor])

subsection \<open>Polling stays live\<close>

lemma poll_kept_refl: "poll_kept s s"
  by (simp add: poll_kept_def)

lemma poll_kept_trans [trans]: "poll_kept s s1 \<Longrightarrow> poll_kept s1 s2 \<Longrightarrow> poll_kept s s2"
  by (simp add: poll_kept_def)

lemma poll_kept_same_core: "same_core s s' \<Longrightarrow> poll_kept s s'"
  by (simp add: poll_kept_def same_core_def)

lemma polling_live_kept: "polling_live s \<Longrightarrow> poll_kept s s' \<Longrightarrow> polling_live s'"
  unfolding polling_live_def poll_kept_def
  by (cases "pollingInterval s") auto

lemma poll_kept_timers:
  "pollingInterval s' = pollingInterval s \<Longrightarrow> set (timers s) \<subseteq> set (timers s') \<Longrightarrow> poll_kept s s'"
  by (auto simp: poll_kept_def)

lemma poll_kept_queueUpdate: "poll_kept s (queueUpdate f s)"
  by (rule poll_kept_timers)
     (auto simp: queueUpdate_def setTimeout_def setTimer_def Let_def)

lemma poll_kept_connect: "poll_kept s (connect s)"
  by (rule poll_kept_timers)
     (auto simp: connect_def setTimeout_def setTimer_def Let_def)

lemma poll_kept_startHeartbeat: "poll_kept s (startHeartbeat s)"
  by (rule poll_kept_timers)
     (auto simp: startHeartbeat_def setInterval_def setTimer_def)

lemma poll_kept_scheduleReconnect: "poll_kept s (scheduleReconnect s)"
  by (rule poll_kept_timers)
     (auto simp: scheduleReconnect_def setTimeout_def setTimer_def Let_def)

lemma poll_kept_ws_close: "poll_kept s (ws_close w c s)"
  by (rule poll_kept_timers) (auto simp: ws_close_def record_effect_def Let_def)

lemma poll_kept_emit: "poll_kept s (emit e d s)"
  by (rule poll_kept_same_core[OF same_core_emit])

lemma poll_kept_clearTimer:
  assumes "\<forall>t\<in>set (timers s). handle t = h \<longrightarrow> callback t \<noteq> PollMetrics"
  shows "poll_kept s (clearTimer h s)"
  using assms by (auto simp: poll_kept_def clearTimer_def)

lemma poll_kept_stopHeartbeat:
  assumes "well_formed s"
  shows "poll_kept s (stopHeartbeat s)"
proof (cases "truthy (heartbeatTimer s)")
  case True
  then obtain h where h: "heartbeatTimer s = Some h" "h \<noteq> 0"
    by (cases "heartbeatTimer s") auto
  from assms h have "\<forall>t\<in>set (timers s). handle t = h \<longrightarrow> callback t \<noteq> PollMetrics"
    by (auto simp: well_formed_def tracked_def)
  then have "poll_kept s (clearTimer h s)" by (rule poll_kept_clearTimer)
  then have "poll_kept s ((clearTimer h s)\<lparr>heartbeatTimer := None\<rparr>)"
    by (simp add: poll_kept_def)
  then show ?thesis using h by (simp add: stopHeartbeat_def)
next
  case False
  then have "stopHeartbeat s = s"
    by (cases "heartbeatTimer s") (simp_all add: stopHeartbeat_def)
  then show ?thesis by (simp add: poll_kept_refl)
qed

lemma polling_live_startPollingFallback:
  assumes "well_formed s"
  shows "polling_live (startPollingFallback s)"
  using assms
  by (simp add: polling_live_def startPollingFallback_def setInterval_def setTimer_def
      updateConnectionStatus_def well_formed_def timers_ok_def)

lemma poll_kept_handleWebSocketOpen: "poll_kept s (handleWebSocketOpen s)"
proof -
  have "poll_kept s (s\<lparr>isConnected := True, reconnectAttempts := 0\<rparr>)"
    by (simp add: poll_kept_def)
  also have "poll_kept \<dots> (startHeartbeat (s\<lparr>isConnected := True, reconnectAttempts := 0\<rparr>))"
    by (rule poll_kept_startHeartbeat)
  also have "poll_kept \<dots> (emit ''connected'' (AValue JUndefined)
          (startHeartbeat (s\<lparr>isConnected := True, reconnectAttempts := 0\<rparr>)))"
    by (rule poll_kept_emit)
  also have "poll_kept \<dots> (handleWebSocketOpen s)"
    by (simp add: handleWebSocketOpen_def poll_kept_def updateConnectionStatus_def)
  finally show ?thesis .
qed

lemma poll_kept_andThen:
  "poll_kept s (final r) \<Longrightarrow> (\<And>s1. poll_kept s s1 \<Longrightarrow> poll_kept s (final (f s1)))
   \<Longrightarrow> poll_kept s (final (andThen r f))"
  by (cases r) simp_all

lemma poll_kept_then_emit: "poll_kept s s1 \<Longrightarrow> poll_kept s (emit e d s1)"
  by (rule poll_kept_trans[OF _ poll_kept_emit])

lemma poll_kept_then_queueUpdate: "poll_kept s s1 \<Longrightarrow> poll_kept s (queueUpdate f s1)"
  by (rule poll_kept_trans[OF _ poll_kept_queueUpdate])

lemma poll_kept_handleMetricsUpdate: "poll_kept s (handleMetricsUpdate p s)"
  unfolding handleMetricsUpdate_def
  by (intro poll_kept_then_emit poll_kept_then_queueUpdate poll_kept_refl)

lemma poll_kept_handlePoolScaling: "poll_kept s (final (handlePoolScaling p s))"
proof (cases "nullish p")
  case True
  then show ?thesis by (simp add: handlePoolScaling_def poll_kept_refl)
next
  case False
  show ?thesis
    unfolding handlePoolScaling_def Let_def if_not_P[OF False]
    by (rule poll_kept_andThen)
       (simp_all add: poll_kept_same_core[OF same_core_showNotification]
          poll_kept_then_emit poll_kept_then_queueUpdate)
qed

lemma poll_kept_dispatch:
  "poll_kept s (final
            (if t = JStr ''pong'' then Ok s
             else if t = JStr ''metrics_update''
               then Ok (handleMetricsUpdate pl s)
             else if t = JStr ''agent_status_change''
               then handleAgentStatusChange pl s
             else if t = JStr ''task_status_change''
               then handleTaskStatusChange pl s
             else if t = JStr ''system_alert''
               then handleSystemAlert pl s
             else if t = JStr ''pool_scaling''
               then handlePoolScaling pl s
             else Ok s))"
  by (simp add: poll_kept_refl poll_kept_handleMetricsUpdate poll_kept_handlePoolScaling
      poll_kept_same_core[OF same_core_handleAgentStatusChange]
      poll_kept_same_core[OF same_core_handleTaskStatusChange]
      poll_kept_same_core[OF same_core_handleSystemAlert])

lemma poll_kept_processRealTimeUpdate: "poll_kept s (final (processRealTimeUpdate d s))"
proof (cases "getProp d ''type''")
  case None
  then show ?thesis by (simp add: processRealTimeUpdate_def poll_kept_refl)
next
  case (Some t)
  show ?thesis
    unfolding processRealTimeUpdate_def Some option.case
    by (rule poll_kept_andThen[OF poll_kept_dispatch]) (simp add: poll_kept_then_emit)
qed

lemma poll_kept_console_error: "poll_kept s s1 \<Longrightarrow> poll_kept s (console_error m s1)"
  by (simp add: poll_kept_def console_error_def)

lemma poll_kept_handleWebSocketMessage: "poll_kept s (handleWebSocketMessage parsed s)"
proof (cases parsed)
  case None
  then show ?thesis
    by (simp add: handleWebSocketMessage_def poll_kept_console_error poll_kept_refl)
next
  case (Some d)
  have k: "poll_kept s (final (processRealTimeUpdate d s))"
    by (rule poll_kept_processRealTimeUpdate)
  show ?thesis
  proof (cases "processRealTimeUpdate d s")
    case (Ok s')
    then show ?thesis using k Some by (simp add: handleWebSocketMessage_def)
  next
    case (Thrown e s')
    then show ?thesis
      using k Some by (simp add: handleWebSocketMessage_def poll_kept_console_error)
  qed
qed

lemma poll_kept_pollResponse: "poll_kept s (pollResponse r s)"
  by (cases r)
     (simp_all add: pollResponse_def poll_kept_handleMetricsUpdate poll_kept_console_error
        poll_kept_refl)

lemma poll_kept_handleWebSocketError: "poll_kept s (handleWebSocketError s)"
  by (simp add: handleWebSocketError_def poll_kept_def emit_eq console_error_def
      updateConnectionStatus_def)

lemma polling_live_handleWebSocketClose:
  assumes w: "well_formed s" and p: "polling_live s"
  shows "polling_live (handleWebSocketClose code s)"
proof -
  let ?s0 = "s\<lparr>isConnected := False\<rparr>"
  let ?s1 = "updateConnectionStatus ''disconnected''
                 (emit ''disconnected'' (AValue JUndefined) (stopHeartbeat ?s0))"
  have w0: "well_formed ?s0"
  proof (rule well_formed_sockets[OF w])
    from w show "sockets_ok ?s0" by (simp add: well_formed_def sockets_ok_def)
  qed simp_all
  have w1: "well_formed ?s1"
    using w0 by (simp add: well_formed_updateConnectionStatus well_formed_emit
        well_formed_stopHeartbeat)
  have "poll_kept s ?s0" by (simp add: poll_kept_def)
  also have "poll_kept ?s0 (stopHeartbeat ?s0)" by (rule poll_kept_stopHeartbeat[OF w0])
  also have "poll_kept (stopHeartbeat ?s0) ?s1"
    by (simp add: poll_kept_def emit_eq updateConnectionStatus_def)
  finally have p1: "polling_live ?s1" by (rule polling_live_kept[OF p])
  show ?thesis
    unfolding handleWebSocketClose_def Let_def
    using polling_live_kept[OF p1 poll_kept_scheduleReconnect]
      polling_live_startPollingFallback[OF w1]
    by simp
qed

lemma poll_kept_self_clear:
  assumes w: "well_formed s" and p: "polling_live s" and t: "t \<in> set (timers s)"
  shows "poll_kept s (if repeats t then s else clearTimer (handle t) s)"
proof (cases "repeats t")
  case True
  then show ?thesis by (simp add: poll_kept_refl)
next
  case False
  from w have "\<forall>u\<in>set (timers s). callback u = PollMetrics \<longrightarrow> repeats u"
    by (simp add: well_formed_def timers_ok_def)
  moreover from w have "distinct (map handle (timers s))"
    by (simp add: well_formed_def timers_ok_def)
  ultimately have "\<forall>u\<in>set (timers s). handle u = handle t \<longrightarrow> callback u \<noteq> PollMetrics"
    using t False by (auto simp: distinct_map inj_on_def)
  then show ?thesis using False by (simp add: poll_kept_clearTimer)
qed

lemma poll_kept_connectionTimeout: "poll_kept s (final (connectionTimeout s))"
  by (cases "websocket s") (simp_all add: connectionTimeout_def poll_kept_ws_close poll_kept_refl)

lemma poll_kept_reconnectTick: "poll_kept s (reconnectTick s)"
  by (simp add: reconnectTick_def poll_kept_connect poll_kept_refl)

lemma poll_kept_processUpdateQueue: "poll_kept s (processUpdateQueue s)"
  by (simp add: processUpdateQueue_eq poll_kept_def)

lemma poll_kept_fire:
  assumes w: "well_formed s" and p: "polling_live s" and t: "t \<in> set (timers s)"
  shows "poll_kept s (fire t s)"
proof -
  let ?s1 = "if repeats t then s else clearTimer (handle t) s"
  have k1: "poll_kept s ?s1" by (rule poll_kept_self_clear[OF w p t])
  show ?thesis
  proof (cases "callback t")
    case ConnectionTimeout
    show ?thesis
      unfolding fire_def Let_def ConnectionTimeout timer_callback.case
      by (rule poll_kept_trans[OF k1 poll_kept_connectionTimeout])
  next
    case ReconnectAttempt
    show ?thesis
      unfolding fire_def Let_def ReconnectAttempt timer_callback.case
      by (rule poll_kept_trans[OF k1 poll_kept_reconnectTick])
  next
    case HeartbeatPing
    show ?thesis
      unfolding fire_def Let_def HeartbeatPing timer_callback.case
      by (rule poll_kept_trans[OF k1 poll_kept_same_core[OF same_core_heartbeatTick]])
  next
    case FlushUpdates
    show ?thesis
      unfolding fire_def Let_def FlushUpdates timer_callback.case
      by (rule poll_kept_trans[OF k1 poll_kept_processUpdateQueue])
  next
    case PollMetrics
    show ?thesis
      unfolding fire_def Let_def PollMetrics timer_callback.case
      by (rule poll_kept_trans[OF k1 poll_kept_same_core[OF same_core_pollTick]])
  qed
qed

lemma same_core_send: "same_core s (final (send d s))"
  by (simp add: same_core_def send_def ws_send_def record_effect_def split: option.splits)

lemma polling_live_step:
  assumes w: "well_formed s" and p: "polling_live s" and ne: "ev \<noteq> BeforeUnload"
  shows "polling_live (step ev s)"
proof (cases ev)
  case CallConnect
  then show ?thesis using polling_live_kept[OF p poll_kept_connect] by (simp add: step_def)
next
  case (CallSend d)
  then show ?thesis
    using polling_live_kept[OF p poll_kept_same_core[OF same_core_send]]
    by (simp add: step_def)
next
  case (CallOn e cb)
  have "poll_kept s (on e cb s)" by (simp add: poll_kept_def on_def Let_def)
  then show ?thesis using CallOn polling_live_kept[OF p] by (simp add: step_def)
next
  case (CallOff e cb)
  have "poll_kept s (off e cb s)"
    by (cases "listeners s e") (simp_all add: poll_kept_def off_def)
  then show ?thesis using CallOff polling_live_kept[OF p] by (simp add: step_def)
next
  case (CallQueueUpdate f)
  then show ?thesis using polling_live_kept[OF p poll_kept_queueUpdate] by (simp add: step_def)
next
  case CallClearNotifications
  have "poll_kept s (clearNotifications s)"
    by (simp add: poll_kept_def clearNotifications_def updateNotificationCount_def)
  then show ?thesis using CallClearNotifications polling_live_kept[OF p] by (simp add: step_def)
next
  case BeforeUnload
  then show ?thesis using ne by simp
next
  case (SocketOpens x)
  have "poll_kept s (s\<lparr>sockets := (sockets s)[x := OPEN]\<rparr>)" by (simp add: poll_kept_def)
  from polling_live_kept[OF p poll_kept_trans[OF this poll_kept_handleWebSocketOpen]]
  show ?thesis using SocketOpens p by (simp add: step_def)
next
  case (SocketMessage x parsed)
  then show ?thesis
    using p polling_live_kept[OF p poll_kept_handleWebSocketMessage] by (simp add: step_def)
next
  case (SocketError x)
  then show ?thesis
    using p polling_live_kept[OF p poll_kept_handleWebSocketError] by (simp add: step_def)
next
  case (SocketCloses x code)
  let ?s0 = "s\<lparr>sockets := (sockets s)[x := CLOSED]\<rparr>"
  have "poll_kept s ?s0" by (simp add: poll_kept_def)
  then have "polling_live ?s0" by (rule polling_live_kept[OF p])
  then have "polling_live (handleWebSocketClose code ?s0)"
    by (rule polling_live_handleWebSocketClose[OF well_formed_sockets_update[OF w]])
  then show ?thesis using SocketCloses p by (simp add: step_def)
next
  case (TimerFires h)
  show ?thesis
  proof (cases "find (\<lambda>t. handle t = h) (timers s)")
    case None
    then show ?thesis using p TimerFires by (simp add: step_def)
  next
    case (Some t)
    then have "t \<in> set (timers s)" by (auto simp: find_Some_iff)
    from polling_live_kept[OF p poll_kept_fire[OF w p this]]
    show ?thesis using TimerFires Some by (simp add: step_def)
  qed
next
  case (PollResponse r)
  have "poll_kept s (s\<lparr>inflight := inflight s - 1\<rparr>)" by (simp add: poll_kept_def)
  from polling_live_kept[OF p poll_kept_trans[OF this poll_kept_pollResponse]]
  show ?thesis using PollResponse p by (simp add: step_def)
next
  case PageHidden
  have "poll_kept s (final (handlePageHidden s))"
    by (simp add: handlePageHidden_def poll_kept_same_core[OF same_core_send] poll_kept_refl)
  then show ?thesis using PageHidden polling_live_kept[OF p] by (simp add: step_def)
next
  case PageVisible
  have "poll_kept s (final (handlePageVisible s))"
    by (simp add: handlePageVisible_def poll_kept_same_core[OF same_core_send]
        poll_kept_connect)
  then show ?thesis using PageVisible polling_live_kept[OF p] by (simp add: step_def)
next
  case NetworkOnline
  have "poll_kept s (handleNetworkOnline s)"
    by (simp add: handleNetworkOnline_def poll_kept_connect poll_kept_refl)
  then show ?thesis using NetworkOnline polling_live_kept[OF p] by (simp add: step_def)
next
  case NetworkOffline
  have "poll_kept s (handleNetworkOffline s)"
    by (simp add: handleNetworkOffline_def updateConnectionStatus_def poll_kept_def)
  then show ?thesis using NetworkOffline polling_live_kept[OF p] by (simp add: step_def)
next
  case (TimePasses d)
  have "poll_kept s (s\<lparr>clock := clock s + d\<rparr>)" by (simp add: poll_kept_def)
  then show ?thesis using TimePasses polling_live_kept[OF p] by (simp add: step_def)
qed

lemma polling_live_run:
  "well_formed s \<Longrightarrow> polling_live s \<Longrightarrow> BeforeUnload \<notin> set evs \<Longrightarrow> polling_live (run evs s)"
proof (induction evs arbitrary: s)
  case Nil
  then show ?case by simp
next
  case (Cons ev evs)
  from Cons.prems have ne: "ev \<noteq> BeforeUnload" and rest: "BeforeUnload \<notin> set evs"
    by auto
  have "polling_live (run evs (step ev s))"
    by (rule Cons.IH[OF well_formed_step[OF Cons.prems(1)]
          polling_live_step[OF Cons.prems(1,2) ne] rest])
  then show ?case by simp
qed

lemma polling_live_constructor: "polling_live (constructor opts env)"
  by (simp add: constructor_def init_def startPollingFallback_def setInterval_def setTimer_def
      updateConnectionStatus_def polling_live_def)

subsection \<open>Evaluating concrete runs\<close>

text \<open>The definitions a run of the event loop on a concrete client unfolds.\<close>

lemmas timer_simps = setTimeout_def setInterval_def setTimer_def clearTimer_def

lemmas handler_simps =
  step_def fire_def connect_def handleWebSocketOpen_def handleWebSocketClose_def
  handleWebSocketError_def handleWebSocketMessage_def processRealTimeUpdate_def
  handleMetricsUpdate_def queueUpdate_def startHeartbeat_def stopHeartbeat_def
  startPollingFallback_def stopPollingFallback_def scheduleReconnect_def reconnectTick_def
  connectionTimeout_def heartbeatTick_def pollTick_def pollResponse_def
  handleNetworkOnline_def handleNetworkOffline_def handlePageHidden_def handlePageVisible_def
  send_def ws_send_def ws_close_def cleanup_def updateConnectionStatus_def record_effect_def
  console_error_def readyState_def field_def emit_eq subscribers_def processUpdateQueue_eq
  backoff_5000 Let_def

lemma busy_client_timers:
  "timers busy_client =
    [\<lparr>handle = 1, callback = PollMetrics, delay = Finite 15000, repeats = True\<rparr>,
     \<lparr>handle = 2, callback = ConnectionTimeout, delay = Finite 5000, repeats = False\<rparr>,
     \<lparr>handle = 3, callback = ReconnectAttempt, delay = Finite 5000, repeats = False\<rparr>,
     \<lparr>handle = 4, callback = ConnectionTimeout, delay = Finite 5000, repeats = False\<rparr>,
     \<lparr>handle = 5, callback = HeartbeatPing, delay = Finite 30000, repeats = True\<rparr>,
     \<lparr>handle = 6, callback = FlushUpdates, delay = Finite 1000, repeats = False\<rparr>]"
  unfolding busy_client_def sample_client_eq
  by (simp add: handler_simps timer_simps sample_frame_def default_options_def)

lemma busy_client_fields:
  "heartbeatTimer busy_client = Some 5" "updateTimer busy_client = Some 6"
  "pollingInterval busy_client = Some 1" "websocket busy_client = Some 1"
  "sockets busy_client = [CLOSED, OPEN]" "isConnected busy_client" "next_timer busy_client = 7"
  "trace busy_client = []"
  unfolding busy_client_def sample_client_eq
  by (simp_all add: handler_simps timer_simps sample_frame_def default_options_def)

subsection \<open>Teardown\<close>

lemma filter_tracked:
  "filter (\<lambda>t. \<not> (handle t \<noteq> 0 \<and> ho = Some (handle t))) ts =
     (case ho of
        None \<Rightarrow> ts
      | Some h \<Rightarrow> if h \<noteq> 0 then filter (\<lambda>t. handle t \<noteq> h) ts else ts)"
proof (cases ho)
  case None
  then show ?thesis by simp
next
  case (Some h)
  show ?thesis
  proof (cases "h = 0")
    case True
    have "filter (\<lambda>t. \<not> (handle t \<noteq> 0 \<and> Some 0 = Some (handle t))) ts = ts"
      by (rule filter_True) auto
    then show ?thesis using Some True by simp
  next
    case False
    have "filter (\<lambda>t. \<not> (handle t \<noteq> 0 \<and> Some h = Some (handle t))) ts =
          filter (\<lambda>t. handle t \<noteq> h) ts"
      by (rule filter_cong) (use False in auto)
    then show ?thesis using Some False by simp
  qed
qed

lemma stopHeartbeat_timers:
  "timers (stopHeartbeat s) =
     filter (\<lambda>t. \<not> (handle t \<noteq> 0 \<and> heartbeatTimer s = Some (handle t))) (timers s)"
  unfolding filter_tracked
  by (cases "heartbeatTimer s") (simp_all add: stopHeartbeat_def clearTimer_def)

lemma stopPollingFallback_timers:
  "timers (stopPollingFallback s) =
     filter (\<lambda>t. \<not> (handle t \<noteq> 0 \<and> pollingInterval s = Some (handle t))) (timers s)"
  unfolding filter_tracked
  by (cases "pollingInterval s") (simp_all add: stopPollingFallback_def clearTimer_def)

lemma stopHeartbeat_frame:
  "pollingInterval (stopHeartbeat s) = pollingInterval s"
  "updateTimer (stopHeartbeat s) = updateTimer s"
  "websocket (stopHeartbeat s) = websocket s"
  "trace (stopHeartbeat s) = trace s"
  by (cases "heartbeatTimer s"; simp add: stopHeartbeat_def clearTimer_def)+

lemma stopPollingFallback_frame:
  "updateTimer (stopPollingFallback s) = updateTimer s"
  "websocket (stopPollingFallback s) = websocket s"
  "trace (stopPollingFallback s) = trace s"
  by (cases "pollingInterval s"; simp add: stopPollingFallback_def clearTimer_def)+

lemma cleanup_timers:
  "timers (cleanup s) = filter (\<lambda>t. \<not> cancelled_by_cleanup s (handle t)) (timers s)"
proof -
  let ?s1 = "stopPollingFallback (stopHeartbeat s)"
  let ?s2 = "case websocket ?s1 of None \<Rightarrow> ?s1 | Some w \<Rightarrow> ws_close w (Some 1000) ?s1"
  have t1: "timers ?s1 =
      filter (\<lambda>t. \<not> (handle t \<noteq> 0 \<and> pollingInterval s = Some (handle t)))
        (filter (\<lambda>t. \<not> (handle t \<noteq> 0 \<and> heartbeatTimer s = Some (handle t))) (timers s))"
    by (simp add: stopPollingFallback_timers stopHeartbeat_timers stopHeartbeat_frame)
  have t2: "timers ?s2 = timers ?s1" "updateTimer ?s2 = updateTimer s"
    by (cases "websocket ?s1";
        simp add: ws_close_def record_effect_def Let_def stopPollingFallback_frame
          stopHeartbeat_frame)+
  have "timers (cleanup s) =
      filter (\<lambda>t. \<not> (handle t \<noteq> 0 \<and> updateTimer ?s2 = Some (handle t))) (timers ?s2)"
    unfolding cleanup_def Let_def filter_tracked
    by (cases "updateTimer ?s2") (simp_all add: clearTimer_def)
  then have "timers (cleanup s) =
      filter (\<lambda>t. \<not> (handle t \<noteq> 0 \<and> updateTimer s = Some (handle t))) (timers ?s2)"
    by (simp only: t2(2))
  then show ?thesis
    unfolding t2(1) t1 by (auto simp: cancelled_by_cleanup_def intro!: filter_cong)
qed

lemma cleanup_trace:
  "trace (cleanup s) =
     trace s @ (case websocket s of None \<Rightarrow> [] | Some w \<Rightarrow> [CloseCalled w (Some 1000)])"
proof -
  let ?s1 = "stopPollingFallback (stopHeartbeat s)"
  let ?s2 = "case websocket ?s1 of None \<Rightarrow> ?s1 | Some w \<Rightarrow> ws_close w (Some 1000) ?s1"
  have w1: "websocket ?s1 = websocket s" "trace ?s1 = trace s"
    by (simp_all add: stopPollingFallback_frame stopHeartbeat_frame)
  have t2: "trace ?s2 =
      trace s @ (case websocket s of None \<Rightarrow> [] | Some w \<Rightarrow> [CloseCalled w (Some 1000)])"
    by (cases "websocket s") (simp_all add: w1 ws_close_def record_effect_def Let_def)
  have "trace (cleanup s) = trace ?s2"
    unfolding cleanup_def Let_def
    by (cases "updateTimer ?s2") (simp_all add: clearTimer_def)
  then show ?thesis by (simp only: t2)
qed

lemma untracked_not_cancelled:
  assumes w: "well_formed s" and t: "t \<in> set (timers s)"
    and c: "callback t = ReconnectAttempt \<or> callback t = ConnectionTimeout"
  shows "\<not> cancelled_by_cleanup s (handle t)"
proof
  assume "cancelled_by_cleanup s (handle t)"
  then consider "heartbeatTimer s = Some (handle t)" | "pollingInterval s = Some (handle t)"
    | "updateTimer s = Some (handle t)"
    by (auto simp: cancelled_by_cleanup_def)
  then show False
  proof cases
    case 1
    with w t have "callback t = HeartbeatPing" by (auto simp: well_formed_def tracked_def)
    with c show False by auto
  next
    case 2
    with w t have "callback t = PollMetrics" by (auto simp: well_formed_def tracked_def)
    with c show False by auto
  next
    case 3
    with w t have "callback t = FlushUpdates" by (auto simp: well_formed_def tracked_def)
    with c show False by auto
  qed
qed

lemma cancelled_not_pending:
  "cancelled_by_cleanup s h \<Longrightarrow> \<not> pending (cleanup s) h"
  by (auto simp: pending_def cleanup_timers)

subsection \<open>A throttle window\<close>

lemma enqueue_more:
  "truthy (updateTimer s) \<Longrightarrow> enqueue_all fs s = s\<lparr>updateQueue := updateQueue s @ fs\<rparr>"
  by (induction fs arbitrary: s) (simp_all add: queueUpdate_def Let_def)

lemma enqueue_first:
  assumes "\<not> truthy (updateTimer s)" and "0 < next_timer s"
  shows "enqueue_all (f # fs) s =
     s\<lparr>updateQueue := updateQueue s @ f # fs,
       timers := timers s @ [\<lparr>handle = next_timer s, callback = FlushUpdates,
                  delay = Finite (of_nat (updateThrottle (options s))), repeats = False\<rparr>],
       next_timer := Suc (next_timer s), updateTimer := Some (next_timer s)\<rparr>"
proof -
  have q: "queueUpdate f s =
     s\<lparr>updateQueue := updateQueue s @ [f],
       timers := timers s @ [\<lparr>handle = next_timer s, callback = FlushUpdates,
                  delay = Finite (of_nat (updateThrottle (options s))), repeats = False\<rparr>],
       next_timer := Suc (next_timer s), updateTimer := Some (next_timer s)\<rparr>"
    using assms(1) by (simp add: queueUpdate_def setTimeout_def setTimer_def Let_def)
  have "truthy (updateTimer (queueUpdate f s))" using assms(2) by (simp add: q)
  then show ?thesis by (simp add: enqueue_more) (simp add: q)
qed

lemma find_fresh:
  assumes "\<forall>t\<in>set ts. handle t \<noteq> h" and "handle n = h"
  shows "find (\<lambda>t. handle t = h) (ts @ [n]) = Some n"
    and "filter (\<lambda>t. handle t \<noteq> h) (ts @ [n]) = ts"
  using assms by (induction ts) auto

lemma invoked_prefix_all:
  "\<forall>f\<in>set fs. is_function f \<and> \<not> thr f \<Longrightarrow> invoked_prefix thr fs = fs"
  by (induction fs) auto

subsection \<open>Push and poll\<close>

lemma push_metrics_eq:
  assumes "getProp frame ''type'' = Some (JStr ''metrics_update'')"
  shows "handleWebSocketMessage (Some frame) s =
           emit ''update'' (AValue frame) (handleMetricsUpdate (field frame ''payload'') s)"
  using assms by (simp add: handleWebSocketMessage_def processRealTimeUpdate_def)

lemma deliveries_emit:
  "deliveries ev (emit e d s) =
     deliveries ev s @ (if e = ev then map (\<lambda>cb. Delivered e cb d) (subscribers s e) else [])"
  by (simp add: deliveries_def emit_eq filter_map comp_def)

lemma listeners_handleMetricsUpdate:
  "listeners (handleMetricsUpdate p s) = listeners s"
  by (simp add: handleMetricsUpdate_def emit_eq queueUpdate_def setTimeout_def setTimer_def
      Let_def)

lemma watched_client_eq:
  "watched_client = sample_client\<lparr>listeners := [''metrics_update'' \<mapsto> [9], ''update'' \<mapsto> [7]]\<rparr>"
  unfolding watched_client_def by (simp add: on_def sample_client_eq)

lemma watched_subscribers:
  "subscribers watched_client ''update'' = [7]"
  "subscribers watched_client ''metrics_update'' = [9]"
  "subscribers (queueUpdate f watched_client) ''metrics_update'' = [9]"
  unfolding watched_client_eq
  by (simp_all add: subscribers_def queueUpdate_def setTimeout_def setTimer_def Let_def)

lemma watched_trace: "trace watched_client = []" "console watched_client = []"
  unfolding watched_client_eq by (simp_all add: sample_client_eq)

lemma watched_poll_trace:
  "trace (handleMetricsUpdate p watched_client) = [Delivered ''metrics_update'' 9 (AValue p)]"
  by (simp add: handleMetricsUpdate_def emit_eq watched_subscribers)
     (simp add: queueUpdate_def setTimeout_def setTimer_def Let_def watched_trace)

lemma watched_push_subscribers:
  "subscribers (handleMetricsUpdate p watched_client) ''update'' = [7]"
  by (simp add: subscribers_def listeners_handleMetricsUpdate)
     (simp add: watched_client_eq)

lemma subscribers_frame:
  "subscribers (s\<lparr>storage := st, notificationCount := c\<rparr>) ev = subscribers s ev"
  "subscribers (s\<lparr>trace := tr, console := co\<rparr>) ev = subscribers s ev"
  by (simp_all add: subscribers_def)

subsection \<open>Retries and fallback\<close>

lemma reconnects_stopHeartbeat:
  assumes "well_formed s"
  shows "reconnects (stopHeartbeat s) = reconnects s"
proof (cases "truthy (heartbeatTimer s)")
  case True
  then obtain h where h: "heartbeatTimer s = Some h" "h \<noteq> 0"
    by (cases "heartbeatTimer s") auto
  from assms h have "\<forall>t\<in>set (timers s). handle t = h \<longrightarrow> callback t = HeartbeatPing"
    by (auto simp: well_formed_def tracked_def)
  then have "filter (\<lambda>t. callback t = ReconnectAttempt) (filter (\<lambda>t. handle t \<noteq> h) (timers s)) =
             filter (\<lambda>t. callback t = ReconnectAttempt) (timers s)"
    by (auto intro!: filter_cong)
  then show ?thesis using h by (simp add: reconnects_def stopHeartbeat_def clearTimer_def)
next
  case False
  then have "stopHeartbeat s = s"
    by (cases "heartbeatTimer s") (simp_all add: stopHeartbeat_def)
  then show ?thesis by simp
qed

lemma handleWebSocketClose_closing:
  "handleWebSocketClose code s =
     (if code \<noteq> 1000 \<and> reconnectAttempts (closing s) < maxReconnectAttempts (options (closing s))
      then scheduleReconnect (closing s) else startPollingFallback (closing s))"
  by (simp add: handleWebSocketClose_def closing_def Let_def)

lemma closing_frame:
  "reconnectAttempts (closing s) = reconnectAttempts s"
  "options (closing s) = options s"
  "next_timer (closing s) = next_timer s"
  "\<not> isConnected (closing s)"
  "math_pow (closing s) = math_pow s"
  by (cases "heartbeatTimer s";
      simp add: closing_def updateConnectionStatus_def emit_eq stopHeartbeat_def clearTimer_def)+

lemma closing_well_formed:
  assumes "well_formed s"
  shows "well_formed (closing s)"
proof -
  have "well_formed (s\<lparr>isConnected := False\<rparr>)"
  proof (rule well_formed_sockets[OF assms])
    from assms show "sockets_ok (s\<lparr>isConnected := False\<rparr>)"
      by (simp add: well_formed_def sockets_ok_def)
  qed simp_all
  then show ?thesis
    by (simp add: closing_def well_formed_updateConnectionStatus well_formed_emit
        well_formed_stopHeartbeat)
qed

lemma closing_reconnects:
  assumes "well_formed s"
  shows "reconnects (closing s) = reconnects s"
proof -
  have w0: "well_formed (s\<lparr>isConnected := False\<rparr>)"
  proof (rule well_formed_sockets[OF assms])
    from assms show "sockets_ok (s\<lparr>isConnected := False\<rparr>)"
      by (simp add: well_formed_def sockets_ok_def)
  qed simp_all
  have "reconnects (closing s) = reconnects (stopHeartbeat (s\<lparr>isConnected := False\<rparr>))"
    by (simp add: closing_def reconnects_def updateConnectionStatus_def emit_eq)
  also have "\<dots> = reconnects (s\<lparr>isConnected := False\<rparr>)"
    by (rule reconnects_stopHeartbeat[OF w0])
  also have "\<dots> = reconnects s" by (simp add: reconnects_def)
  finally show ?thesis .
qed

lemma close_retry:
  assumes w: "well_formed s" and c: "code \<noteq> 1000"
    and a: "reconnectAttempts s < maxReconnectAttempts (options s)"
  shows "reconnectAttempts (handleWebSocketClose code s) = Suc (reconnectAttempts s)"
    and "options (handleWebSocketClose code s) = options s"
    and "next_timer (handleWebSocketClose code s) = Suc (next_timer s)"
    and "reconnects (handleWebSocketClose code s) =
           reconnects s @
             [\<lparr>handle = next_timer s, callback = ReconnectAttempt,
               delay = times_number (reconnectInterval (options s))
                         (math_pow s (3 / 2) (reconnectAttempts s)),
               repeats = False\<rparr>]"
    and "connectionStatus (handleWebSocketClose code s) = ''disconnected''"
    and "math_pow (handleWebSocketClose code s) = math_pow s"
proof -
  have e: "handleWebSocketClose code s = scheduleReconnect (closing s)"
    using c a by (simp add: handleWebSocketClose_closing closing_frame)
  show "reconnectAttempts (handleWebSocketClose code s) = Suc (reconnectAttempts s)"
    and "options (handleWebSocketClose code s) = options s"
    and "next_timer (handleWebSocketClose code s) = Suc (next_timer s)"
    unfolding e
    by (simp_all add: scheduleReconnect_def setTimeout_def setTimer_def Let_def closing_frame)
  have "reconnects (scheduleReconnect (closing s)) =
          reconnects (closing s) @
             [\<lparr>handle = next_timer s, callback = ReconnectAttempt,
               delay = times_number (reconnectInterval (options s))
                         (math_pow s (3 / 2) (reconnectAttempts s)),
               repeats = False\<rparr>]"
    by (simp add: reconnects_def scheduleReconnect_def setTimeout_def setTimer_def Let_def
        closing_frame)
  then show "reconnects (handleWebSocketClose code s) =
           reconnects s @
             [\<lparr>handle = next_timer s, callback = ReconnectAttempt,
               delay = times_number (reconnectInterval (options s))
                         (math_pow s (3 / 2) (reconnectAttempts s)),
               repeats = False\<rparr>]"
    unfolding e closing_reconnects[OF w] .
  show "connectionStatus (handleWebSocketClose code s) = ''disconnected''"
    unfolding e
    by (simp add: scheduleReconnect_def setTimeout_def setTimer_def Let_def closing_def
        updateConnectionStatus_def)
  show "math_pow (handleWebSocketClose code s) = math_pow s"
    unfolding e
    by (simp add: scheduleReconnect_def setTimeout_def setTimer_def Let_def closing_frame)
qed

lemma close_fallback:
  assumes w: "well_formed s"
    and a: "code = 1000 \<or> maxReconnectAttempts (options s) \<le> reconnectAttempts s"
  shows "reconnectAttempts (handleWebSocketClose code s) = reconnectAttempts s"
    and "options (handleWebSocketClose code s) = options s"
    and "reconnects (handleWebSocketClose code s) = reconnects s"
    and "connectionStatus (handleWebSocketClose code s) = ''polling''"
    and "polling_live (handleWebSocketClose code s)"
    and "\<not> isConnected (handleWebSocketClose code s)"
proof -
  have e: "handleWebSocketClose code s = startPollingFallback (closing s)"
    using a by (auto simp: handleWebSocketClose_closing closing_frame)
  show "reconnectAttempts (handleWebSocketClose code s) = reconnectAttempts s"
    and "options (handleWebSocketClose code s) = options s"
    and "connectionStatus (handleWebSocketClose code s) = ''polling''"
    and "\<not> isConnected (handleWebSocketClose code s)"
    unfolding e
    by (simp_all add: startPollingFallback_def setInterval_def setTimer_def
        updateConnectionStatus_def closing_frame)
  have "reconnects (startPollingFallback (closing s)) = reconnects (closing s)"
    by (simp add: reconnects_def startPollingFallback_def setInterval_def setTimer_def
        updateConnectionStatus_def)
  then show "reconnects (handleWebSocketClose code s) = reconnects s"
    unfolding e closing_reconnects[OF w] .
  show "polling_live (handleWebSocketClose code s)"
    unfolding e by (rule polling_live_startPollingFallback[OF closing_well_formed[OF w]])
qed

lemma failures_retry:
  assumes "well_formed s" and "\<forall>c\<in>set codes. c \<noteq> 1000"
    and "reconnectAttempts s + length codes \<le> maxReconnectAttempts (options s)"
  shows "reconnectAttempts (failures codes s) = reconnectAttempts s + length codes
       \<and> options (failures codes s) = options s
       \<and> well_formed (failures codes s)
       \<and> reconnects (failures codes s) =
           reconnects s @ retries (math_pow s) (reconnectInterval (options s)) (next_timer s)
                            (reconnectAttempts s) (length codes)"
  using assms
proof (induction codes arbitrary: s)
  case Nil
  then show ?case by simp
next
  case (Cons c codes)
  let ?s1 = "handleWebSocketClose c s"
  from Cons.prems have c: "c \<noteq> 1000"
    and a: "reconnectAttempts s < maxReconnectAttempts (options s)" by auto
  note r = close_retry[OF Cons.prems(1) c a]
  have w1: "well_formed ?s1" by (rule well_formed_handleWebSocketClose[OF Cons.prems(1)])
  have "reconnectAttempts (failures codes ?s1) = reconnectAttempts ?s1 + length codes
       \<and> options (failures codes ?s1) = options ?s1
       \<and> well_formed (failures codes ?s1)
       \<and> reconnects (failures codes ?s1) =
           reconnects ?s1 @ retries (math_pow ?s1) (reconnectInterval (options ?s1))
                            (next_timer ?s1) (reconnectAttempts ?s1) (length codes)"
    using Cons.prems by (intro Cons.IH w1) (simp_all add: r)
  then show ?case by (simp add: r)
qed

lemma failures_fallback:
  assumes "well_formed s" and "maxReconnectAttempts (options s) \<le> reconnectAttempts s"
  shows "reconnects (failures codes s) = reconnects s
       \<and> reconnectAttempts (failures codes s) = reconnectAttempts s"
  using assms
proof (induction codes arbitrary: s)
  case Nil
  then show ?case by simp
next
  case (Cons c codes)
  let ?s1 = "handleWebSocketClose c s"
  note f = close_fallback[OF Cons.prems(1) disjI2[OF Cons.prems(2)], of c]
  have w1: "well_formed ?s1" by (rule well_formed_handleWebSocketClose[OF Cons.prems(1)])
  have "reconnects (failures codes ?s1) = reconnects ?s1
       \<and> reconnectAttempts (failures codes ?s1) = reconnectAttempts ?s1"
    using Cons.prems(2) by (intro Cons.IH w1) (simp add: f)
  then show ?case by (simp add: f)
qed

subsection \<open>Lists\<close>

lemma same_key_distinct:
  "distinct (map f xs) \<Longrightarrow> \<forall>x\<in>set xs. f x = c \<Longrightarrow> length xs \<le> 1"
  by (cases xs; cases "tl xs") auto

section \<open>Claims\<close>

subsection \<open>C1: one transport at a time\<close>

text \<open>
  C1 (amended). Polling is not deactivated by the push channel. The constructor starts
  the polling timer, and after every sequence of events other than the teardown
  (connects, opens, frames, errors, closes, timers firing, poll responses, page and
  network events, sends, subscriptions) the timer named by \<open>pollingInterval\<close> is still
  pending, also while the channel is open.
\<close>

theorem polling_stays_live_beside_push:
  assumes "BeforeUnload \<notin> set evs"
  shows "polling_live (run evs (constructor opts env))"
  by (rule polling_live_run[OF well_formed_constructor polling_live_constructor assms])

text \<open>
  An instance: after \<open>connect\<close> and the opening of the socket, the socket is open and
  polling is live.
\<close>

theorem polling_stays_live_beside_push_witness:
  "BeforeUnload \<notin> set [CallConnect, SocketOpens 0]
   \<and> polling_live (run [CallConnect, SocketOpens 0] (constructor default_options sample_env))
   \<and> sockets (run [CallConnect, SocketOpens 0] (constructor default_options sample_env)) = [OPEN]"
proof -
  have a: "BeforeUnload \<notin> set [CallConnect, SocketOpens 0]" by simp
  have b: "sockets (run [CallConnect, SocketOpens 0] (constructor default_options sample_env)) = [OPEN]"
    unfolding sample_client_def[symmetric] sample_client_eq
    by (simp add: handler_simps timer_simps)
  show ?thesis
    using polling_stays_live_beside_push[OF a, of default_options sample_env] a b by blast
qed

text \<open>
  C1 as stated fails: after \<open>connect\<close> and the opening of the socket the client is
  connected on an open socket and its polling timer is pending too, since
  \<open>handleWebSocketOpen\<close> does not call \<open>stopPollingFallback\<close>.
\<close>

theorem push_and_polling_both_live:
  "connected (run [CallConnect, SocketOpens 0] (constructor default_options sample_env))
   \<and> polling_live (run [CallConnect, SocketOpens 0] (constructor default_options sample_env))"
  unfolding sample_client_def[symmetric] sample_client_eq
  by (simp add: handler_simps timer_simps connected_def polling_live_def)

subsection \<open>C2: teardown\<close>

text \<open>
  C2 (amended). In every reachable state \<open>cleanup\<close> cancels exactly the timers whose
  handles are kept in \<open>heartbeatTimer\<close>, \<open>pollingInterval\<close> and \<open>updateTimer\<close>: none
  of these is pending afterwards. It calls \<open>close(1000)\<close> on the current socket when
  there is one. It cancels nothing else: every pending backoff (reconnect) timer and every
  pending connection-timeout timer is still pending afterwards.
\<close>

theorem cleanup_cancels_tracked_timers_only:
  "timers (cleanup (run evs (constructor opts env))) =
     filter (\<lambda>t. \<not> cancelled_by_cleanup (run evs (constructor opts env)) (handle t))
       (timers (run evs (constructor opts env)))
   \<and> (\<forall>h. cancelled_by_cleanup (run evs (constructor opts env)) h \<longrightarrow>
         \<not> pending (cleanup (run evs (constructor opts env))) h)
   \<and> (\<forall>t\<in>set (timers (run evs (constructor opts env))).
         callback t = ReconnectAttempt \<or> callback t = ConnectionTimeout \<longrightarrow>
         t \<in> set (timers (cleanup (run evs (constructor opts env)))))
   \<and> trace (cleanup (run evs (constructor opts env))) =
       trace (run evs (constructor opts env)) @
         (case websocket (run evs (constructor opts env)) of
            None \<Rightarrow> []
          | Some w \<Rightarrow> [CloseCalled w (Some 1000)])"
  using untracked_not_cancelled[OF well_formed_reachable[of evs opts env]]
  by (simp add: cleanup_timers cleanup_trace cancelled_not_pending)

text \<open>
  An instance: the client with a backoff, a heartbeat and a flush timer pending. Teardown
  leaves the backoff timer 3 and the two connection timeouts, and asks socket 1 to close
  with code 1000.
\<close>

theorem cleanup_cancels_tracked_timers_only_witness:
  "timers (cleanup busy_client) =
    [\<lparr>handle = 2, callback = ConnectionTimeout, delay = Finite 5000, repeats = False\<rparr>,
     \<lparr>handle = 3, callback = ReconnectAttempt, delay = Finite 5000, repeats = False\<rparr>,
     \<lparr>handle = 4, callback = ConnectionTimeout, delay = Finite 5000, repeats = False\<rparr>]
   \<and> trace (cleanup busy_client) = [CloseCalled 1 (Some 1000)]"
  using cleanup_cancels_tracked_timers_only
          [of "[CallConnect, SocketCloses 0 1006, NetworkOnline, SocketOpens 1,
                SocketMessage 1 (Some sample_frame)]" default_options sample_env]
  unfolding sample_client_def[symmetric] busy_client_def[symmetric]
  by (simp add: busy_client_timers busy_client_fields cancelled_by_cleanup_def)

text \<open>
  C2 as stated fails: with a backoff timer (3), the heartbeat timer (5) and a flush timer
  (6) pending, the backoff timer is still pending after \<open>cleanup\<close>; once the clean close
  has been delivered, its firing opens a third socket.
\<close>

theorem teardown_leaves_backoff_timer:
  "pending busy_client 3 \<and> pending busy_client 5 \<and> pending busy_client 6
   \<and> pending (cleanup busy_client) 3
   \<and> length (sockets (cleanup busy_client)) = 2
   \<and> length (sockets (run [SocketCloses 1 1000, TimerFires 3] (cleanup busy_client))) = 3"
  unfolding busy_client_def sample_client_eq
  by (simp add: handler_simps timer_simps sample_frame_def default_options_def pending_def)

subsection \<open>C3: one flush per throttle window\<close>

text \<open>
  C3 (amended). In a reachable state with an empty buffer and no flush scheduled,
  enqueuing a non-empty list of actions schedules exactly one flush timer (the only flush
  timer pending) and invokes nothing. When that timer fires, the flush invokes the
  buffered functions in enqueue order up to and including the first one that throws, each
  once, all of them when none throws; it leaves the buffer empty, the handle released
  and no flush timer pending.
\<close>

theorem enqueue_window_flushes_once:
  assumes reach: "s = run evs (constructor opts env)"
    and empty: "updateQueue s = []" and idle: "\<not> truthy (updateTimer s)"
    and some: "fs \<noteq> []"
  shows "timers (enqueue_all fs s) =
           timers s @ [\<lparr>handle = next_timer s, callback = FlushUpdates,
                        delay = Finite (of_nat (updateThrottle (options s))), repeats = False\<rparr>]
       \<and> length (flush_timers (enqueue_all fs s)) = 1
       \<and> updateQueue (enqueue_all fs s) = fs
       \<and> trace (enqueue_all fs s) = trace s
       \<and> trace (step (TimerFires (next_timer s)) (enqueue_all fs s)) =
           trace s @ map Invoked (invoked_prefix (update_throws s) fs)
       \<and> updateQueue (step (TimerFires (next_timer s)) (enqueue_all fs s)) = []
       \<and> updateTimer (step (TimerFires (next_timer s)) (enqueue_all fs s)) = None
       \<and> timers (step (TimerFires (next_timer s)) (enqueue_all fs s)) = timers s
       \<and> ((\<forall>f\<in>set fs. is_function f \<and> \<not> update_throws s f) \<longrightarrow>
             invoked_prefix (update_throws s) fs = fs)"
proof -
  have w: "well_formed s" unfolding reach by (rule well_formed_reachable)
  then have ok: "timers_ok s" by (simp add: well_formed_def)
  then have pos: "0 < next_timer s" and fresh: "\<forall>t\<in>set (timers s). handle t \<noteq> next_timer s"
    by (auto simp: timers_ok_def)
  have nf: "flush_timers s = []"
    using no_flush_pending[OF ok idle] by (simp add: flush_timers_def filter_empty_conv)
  obtain f fs' where fs: "fs = f # fs'" using some by (cases fs) auto
  let ?T = "\<lparr>handle = next_timer s, callback = FlushUpdates,
             delay = Finite (of_nat (updateThrottle (options s))), repeats = False\<rparr>"
  let ?s1 = "s\<lparr>updateQueue := fs, timers := timers s @ [?T],
               next_timer := Suc (next_timer s), updateTimer := Some (next_timer s)\<rparr>"
  have e: "enqueue_all fs s = ?s1"
    unfolding fs using enqueue_first[OF idle pos, of f fs'] empty by simp
  have fnd: "find (\<lambda>t. handle t = next_timer s) (timers ?s1) = Some ?T"
    and flt: "filter (\<lambda>t. handle t \<noteq> next_timer s) (timers s @ [?T]) = timers s"
    using find_fresh[OF fresh, of ?T] by simp_all
  have st: "step (TimerFires (next_timer s)) ?s1 =
      processUpdateQueue (?s1\<lparr>timers := timers s\<rparr>)"
    using fnd flt by (simp add: step_def fire_def clearTimer_def)
  have 1: "length (flush_timers ?s1) = 1"
    using nf by (simp add: flush_timers_def)
  show ?thesis
    unfolding e st using 1
    by (simp add: processUpdateQueue_eq invoked_prefix_all)
qed

text \<open>
  An instance: three actions that do not throw are all invoked, in order, by the one flush.
\<close>

theorem enqueue_window_flushes_once_witness:
  "sample_client = run [] (constructor default_options sample_env)
   \<and> updateQueue sample_client = [] \<and> \<not> truthy (updateTimer sample_client)
   \<and> length (flush_timers (enqueue_all [ExternalFn 7, MetricsRefresh JNull, DashboardRefresh]
        sample_client)) = 1
   \<and> trace (step (TimerFires 2)
        (enqueue_all [ExternalFn 7, MetricsRefresh JNull, DashboardRefresh] sample_client)) =
       [Invoked (ExternalFn 7), Invoked (MetricsRefresh JNull), Invoked DashboardRefresh]
   \<and> updateQueue (step (TimerFires 2)
        (enqueue_all [ExternalFn 7, MetricsRefresh JNull, DashboardRefresh] sample_client)) = []"
proof -
  have r: "sample_client = run [] (constructor default_options sample_env)"
    by (simp add: sample_client_def)
  have q: "updateQueue sample_client = []" and i: "\<not> truthy (updateTimer sample_client)"
    and n: "next_timer sample_client = 2" and t: "trace sample_client = []"
    and u: "update_throws sample_client = (\<lambda>f. f = ExternalFn 8)"
    by (simp_all add: sample_client_eq)
  have ne: "[ExternalFn 7, MetricsRefresh JNull, DashboardRefresh] \<noteq> []" by simp
  show ?thesis
    using enqueue_window_flushes_once[OF r q i ne] r q i
    unfolding n t u by simp
qed

text \<open>
  C3 as stated fails when an action throws: of three actions enqueued in one window, the
  second throwing, the flush invokes the first two only and empties the buffer.
\<close>

theorem flush_skips_actions_after_a_throw:
  "trace (step (TimerFires 2)
      (enqueue_all [ExternalFn 7, ExternalFn 8, ExternalFn 9] sample_client)) =
     [Invoked (ExternalFn 7), Invoked (ExternalFn 8)]
   \<and> updateQueue (step (TimerFires 2)
      (enqueue_all [ExternalFn 7, ExternalFn 8, ExternalFn 9] sample_client)) = []"
  unfolding sample_client_eq
  by (simp add: handler_simps timer_simps default_options_def)

subsection \<open>C4: poll-origin and push-origin metrics updates\<close>

text \<open>
  C4 (amended). A pushed \<open>metrics_update\<close> frame does what a successful poll with the same
  payload does and then publishes the whole frame as an \<open>update\<close> event. Subscribers of
  every event type other than \<open>update\<close>, those of \<open>metrics_update\<close> among them, observe
  the same deliveries in both cases; each subscriber of \<open>update\<close> observes one more
  delivery on the push path.
\<close>

theorem push_metrics_is_poll_plus_update_event:
  assumes "getProp frame ''type'' = Some (JStr ''metrics_update'')"
  shows "handleWebSocketMessage (Some frame) s =
           emit ''update'' (AValue frame) (pollResponse (PollOk (field frame ''payload'')) s)
       \<and> (\<forall>ev. ev \<noteq> ''update'' \<longrightarrow>
             deliveries ev (handleWebSocketMessage (Some frame) s) =
             deliveries ev (pollResponse (PollOk (field frame ''payload'')) s))
       \<and> deliveries ''update'' (handleWebSocketMessage (Some frame) s) =
           deliveries ''update'' (pollResponse (PollOk (field frame ''payload'')) s) @
           map (\<lambda>cb. Delivered ''update'' cb (AValue frame)) (subscribers s ''update'')"
proof -
  have p: "pollResponse (PollOk (field frame ''payload'')) s =
           handleMetricsUpdate (field frame ''payload'') s"
    by (simp add: pollResponse_def)
  have s: "subscribers (handleMetricsUpdate (field frame ''payload'') s) ''update'' =
           subscribers s ''update''"
    by (simp add: subscribers_def listeners_handleMetricsUpdate)
  show ?thesis
    unfolding push_metrics_eq[OF assms] p
    by (simp add: deliveries_emit s)
qed

text \<open>
  An instance: the subscriber of \<open>metrics_update\<close> gets the same single delivery either way.
\<close>

theorem push_metrics_is_poll_plus_update_event_witness:
  "getProp sample_frame ''type'' = Some (JStr ''metrics_update'')
   \<and> deliveries ''metrics_update'' (handleWebSocketMessage (Some sample_frame) watched_client) =
       [Delivered ''metrics_update'' 9 (AValue (field sample_frame ''payload''))]
   \<and> deliveries ''metrics_update''
         (pollResponse (PollOk (field sample_frame ''payload'')) watched_client) =
       [Delivered ''metrics_update'' 9 (AValue (field sample_frame ''payload''))]"
proof -
  have t: "getProp sample_frame ''type'' = Some (JStr ''metrics_update'')"
    by (simp add: sample_frame_def)
  have ne: "''metrics_update'' \<noteq> ''update''" by simp
  have d: "deliveries ''metrics_update''
         (pollResponse (PollOk (field sample_frame ''payload'')) watched_client) =
       [Delivered ''metrics_update'' 9 (AValue (field sample_frame ''payload''))]"
    by (simp add: deliveries_def pollResponse_def watched_poll_trace)
  from push_metrics_is_poll_plus_update_event[OF t, of watched_client]
  have "\<forall>ev. ev \<noteq> ''update'' \<longrightarrow>
             deliveries ev (handleWebSocketMessage (Some sample_frame) watched_client) =
             deliveries ev (pollResponse (PollOk (field sample_frame ''payload'')) watched_client)"
    by (rule conjunct1[OF conjunct2])
  then have "''metrics_update'' \<noteq> ''update'' \<longrightarrow>
        deliveries ''metrics_update'' (handleWebSocketMessage (Some sample_frame) watched_client) =
        deliveries ''metrics_update''
          (pollResponse (PollOk (field sample_frame ''payload'')) watched_client)"
    by (rule spec)
  then have "deliveries ''metrics_update'' (handleWebSocketMessage (Some sample_frame) watched_client) =
        deliveries ''metrics_update''
          (pollResponse (PollOk (field sample_frame ''payload'')) watched_client)"
    using ne by (rule mp)
  then show ?thesis using t d by (simp only: simp_thms)
qed

text \<open>
  C4 as stated fails: a subscriber of \<open>update\<close> is called for the pushed frame and not
  for the polled payload.
\<close>

theorem update_subscriber_tells_push_from_poll:
  "trace (handleWebSocketMessage (Some sample_frame) watched_client) =
     [Delivered ''metrics_update'' 9 (AValue (field sample_frame ''payload'')),
      Delivered ''update'' 7 (AValue sample_frame)]
   \<and> trace (pollResponse (PollOk (field sample_frame ''payload'')) watched_client) =
     [Delivered ''metrics_update'' 9 (AValue (field sample_frame ''payload''))]"
proof -
  have t: "getProp sample_frame ''type'' = Some (JStr ''metrics_update'')"
    by (simp add: sample_frame_def)
  show ?thesis
    unfolding push_metrics_eq[OF t]
    by (simp add: pollResponse_def emit_eq watched_poll_trace watched_push_subscribers)
qed

subsection \<open>C5: the notification store\<close>

text \<open>
  C5. The stored notification sequence is newest first and never longer than 50: recording
  a non-empty list of notifications over any stored sequence (an absent item is the empty
  one) succeeds and leaves the 50 newest of "new ones, newest first, then the old ones".
  After 51 recordings these are exactly the last 50 recorded, newest first; the first of the
  51 has been evicted from the tail.
\<close>

theorem notification_store_capped_newest_first:
  assumes "stored_list (storage s) = Some old" and "ns \<noteq> []"
  shows "\<exists>s'. storeAll ns s = Ok s'
           \<and> storage s' = ItemArray (take 50 (rev ns @ old))
           \<and> length (take 50 (rev ns @ old)) \<le> 50
           \<and> notificationCount s' = length (take 50 (rev ns @ old))
           \<and> (length ns = 51 \<longrightarrow>
                 take 50 (rev ns @ old) = rev (tl ns)
                 \<and> (distinct ns \<longrightarrow> hd ns \<notin> set (take 50 (rev ns @ old))))"
proof -
  have "length ns = 51 \<Longrightarrow> take 50 (rev ns @ old) = rev (tl ns)"
    by (rule take_rev_51) simp
  moreover have "length ns = 51 \<Longrightarrow> distinct ns \<Longrightarrow> hd ns \<notin> set (rev (tl ns))"
    by (cases ns) auto
  moreover have "notificationCount (s\<lparr>storage := ItemArray (take 50 (rev ns @ old)),
           notificationCount := min 50 (length ns + length old)\<rparr>) = length (take 50 (rev ns @ old))"
    by (simp add: min.commute)
  ultimately show ?thesis
    using storeAll_eq[OF assms] by (auto simp del: take_append)
qed

text \<open>
  An instance: 51 distinct notifications recorded into an empty store.
\<close>

theorem notification_store_capped_newest_first_witness:
  "stored_list (storage sample_client) = Some []
   \<and> (\<exists>s'. storeAll (map sample_note [0..<51]) sample_client = Ok s'
           \<and> storage s' = ItemArray (rev (map sample_note [1..<51]))
           \<and> notificationCount s' = 50
           \<and> sample_note 0 \<notin> set (rev (map sample_note [1..<51])))"
proof -
  have h: "stored_list (storage sample_client) = Some []"
    by (simp add: sample_client_eq stored_list_def)
  have ne: "map sample_note [0..<51] \<noteq> []" by simp
  have len: "length (map sample_note [0..<51]) = 51" by simp
  have inj: "inj sample_note" by (rule injI) (simp add: sample_note_def)
  have d: "distinct (map sample_note [0..<51])" by (simp add: distinct_map inj_on_subset[OF inj])
  have tl: "tl (map sample_note [0..<51]) = map sample_note [1..<51]"
    by (simp add: upt_conv_Cons del: upt_Suc)
  have hd: "hd (map sample_note [0..<51]) = sample_note 0"
    by (simp add: upt_conv_Cons del: upt_Suc)
  from notification_store_capped_newest_first[OF h ne]
  obtain s' where s': "storeAll (map sample_note [0..<51]) sample_client = Ok s'"
      "storage s' = ItemArray (take 50 (rev (map sample_note [0..<51]) @ []))"
      "notificationCount s' = length (take 50 (rev (map sample_note [0..<51]) @ []))"
      "length (map sample_note [0..<51]) = 51 \<longrightarrow>
                 take 50 (rev (map sample_note [0..<51]) @ []) = rev (tl (map sample_note [0..<51]))
                 \<and> (distinct (map sample_note [0..<51]) \<longrightarrow> hd (map sample_note [0..<51]) \<notin> set (take 50 (rev (map sample_note [0..<51]) @ [])))"
    by blast
  from s'(4) len d have e: "take 50 (rev (map sample_note [0..<51]) @ []) = rev (map sample_note [1..<51])"
    and a: "sample_note 0 \<notin> set (take 50 (rev (map sample_note [0..<51]) @ []))"
    unfolding tl hd by blast+
  have c: "notificationCount s' = 50" unfolding s'(3) e by simp
  show ?thesis
    using h s'(1) s'(2) c a unfolding e by blast
qed

subsection \<open>C6: backoff\<close>

text \<open>
  C6. \<open>scheduleReconnect\<close> increments the attempt counter first and then schedules one
  retry whose delay is the product, in the arithmetic of the language, of the base
  interval and \<open>Math.pow(1.5, n - 1)\<close>, \<open>n\<close> being the incremented counter. On an
  engine whose \<open>Math.pow\<close> is exact on doubles the delay is the base interval times 1.5
  to the power \<open>n - 1\<close> exactly, whenever 3 to the power \<open>n - 1\<close>, and the base interval
  times that, are below 2 to the power 53: nothing is rounded then.
\<close>

theorem scheduleReconnect_backoff:
  "reconnectAttempts (scheduleReconnect s) = reconnectAttempts s + 1
   \<and> timers (scheduleReconnect s) =
       timers s @
         [\<lparr>handle = next_timer s, callback = ReconnectAttempt,
           delay = times_number (reconnectInterval (options s))
                     (math_pow s (3 / 2) (reconnectAttempts (scheduleReconnect s) - 1)),
           repeats = False\<rparr>]
   \<and> (exact_on_doubles (math_pow s)
        \<and> 3 ^ (reconnectAttempts (scheduleReconnect s) - 1) < (2::nat) ^ 53
        \<and> reconnectInterval (options s) * 3 ^ (reconnectAttempts (scheduleReconnect s) - 1)
            < 2 ^ 53
      \<longrightarrow> timers (scheduleReconnect s) =
           timers s @
             [\<lparr>handle = next_timer s, callback = ReconnectAttempt,
               delay = Finite (of_nat (reconnectInterval (options s))
                         * (3 / 2) ^ (reconnectAttempts (scheduleReconnect s) - 1)),
               repeats = False\<rparr>])"
proof -
  have a: "reconnectAttempts (scheduleReconnect s) = reconnectAttempts s + 1"
    by (simp add: scheduleReconnect_def setTimeout_def setTimer_def Let_def)
  have t: "timers (scheduleReconnect s) =
       timers s @
         [\<lparr>handle = next_timer s, callback = ReconnectAttempt,
           delay = times_number (reconnectInterval (options s))
                     (math_pow s (3 / 2) (reconnectAttempts s)),
           repeats = False\<rparr>]"
    by (simp add: scheduleReconnect_def setTimeout_def setTimer_def Let_def)
  have n: "reconnectAttempts (scheduleReconnect s) - 1 = reconnectAttempts s"
    unfolding a by simp
  show ?thesis
    unfolding n
  proof (intro conjI impI)
    show "reconnectAttempts (scheduleReconnect s) = reconnectAttempts s + 1" by (rule a)
    show "timers (scheduleReconnect s) =
       timers s @
         [\<lparr>handle = next_timer s, callback = ReconnectAttempt,
           delay = times_number (reconnectInterval (options s))
                     (math_pow s (3 / 2) (reconnectAttempts s)),
           repeats = False\<rparr>]" by (rule t)
    assume "exact_on_doubles (math_pow s)
        \<and> 3 ^ reconnectAttempts s < (2::nat) ^ 53
        \<and> reconnectInterval (options s) * 3 ^ reconnectAttempts s < 2 ^ 53"
    then have "times_number (reconnectInterval (options s))
                 (math_pow s (3 / 2) (reconnectAttempts s)) =
               Finite (of_nat (reconnectInterval (options s)) * (3 / 2) ^ reconnectAttempts s)"
      by (intro backoff_exact) simp_all
    then show "timers (scheduleReconnect s) =
           timers s @
             [\<lparr>handle = next_timer s, callback = ReconnectAttempt,
               delay = Finite (of_nat (reconnectInterval (options s))
                         * (3 / 2) ^ reconnectAttempts s),
               repeats = False\<rparr>]"
      unfolding t by simp
  qed
qed

text \<open>
  The second retry of the client with the default options: the counter goes from 1 to 2
  and the delay is 5000 times 1.5.
\<close>

theorem scheduleReconnect_backoff_witness:
  "exact_on_doubles (math_pow (scheduleReconnect sample_client))
   \<and> 3 ^ (reconnectAttempts (scheduleReconnect (scheduleReconnect sample_client)) - 1)
     < (2::nat) ^ 53
   \<and> reconnectInterval (options (scheduleReconnect sample_client))
       * 3 ^ (reconnectAttempts (scheduleReconnect (scheduleReconnect sample_client)) - 1)
     < 2 ^ 53
   \<and> reconnectAttempts (scheduleReconnect (scheduleReconnect sample_client)) = 2
   \<and> timers (scheduleReconnect (scheduleReconnect sample_client)) =
       [\<lparr>handle = 1, callback = PollMetrics, delay = Finite 15000, repeats = True\<rparr>,
        \<lparr>handle = 2, callback = ReconnectAttempt, delay = Finite 5000, repeats = False\<rparr>,
        \<lparr>handle = 3, callback = ReconnectAttempt, delay = Finite 7500, repeats = False\<rparr>]"
proof -
  let ?s = "scheduleReconnect sample_client"
  have f: "reconnectAttempts ?s = 1" "reconnectInterval (options ?s) = 5000"
    "next_timer ?s = 3"
    "timers ?s =
       [\<lparr>handle = 1, callback = PollMetrics, delay = Finite 15000, repeats = True\<rparr>,
        \<lparr>handle = 2, callback = ReconnectAttempt, delay = Finite 5000, repeats = False\<rparr>]"
    "math_pow ?s = nearest_power"
    unfolding sample_client_eq
    by (simp_all add: scheduleReconnect_def setTimeout_def setTimer_def Let_def
        default_options_def backoff_5000)
  have g: "reconnectAttempts (scheduleReconnect ?s) = 2"
    "reconnectAttempts (scheduleReconnect ?s) - 1 = Suc 0"
    unfolding sample_client_eq
    by (simp_all add: scheduleReconnect_def setTimeout_def setTimer_def Let_def)
  show ?thesis
    using scheduleReconnect_backoff[of ?s]
    unfolding g f by (simp add: backoff_5000 exact_nearest_power)
qed

subsection \<open>C7: exhausting the retries\<close>

text \<open>
  C7 (amended). Starting in a well-formed state (every reachable state is one) with the
  attempt counter at 0, each of N consecutive non-clean closes (N the configured maximum)
  schedules one retry, the k-th with the delay computed from the base interval and
  \<open>Math.pow(1.5, k - 1)\<close>, and they leave the counter at N. The next close is the one
  that falls back to polling: it schedules no retry, starts a polling timer and reports
  the status \<open>polling\<close>; nor does any later close schedule a retry, whatever its code.
  \<open>failures\<close> applies the close handler for each code in turn.
\<close>

theorem polling_after_retries_exhausted:
  assumes wf: "well_formed s" and fresh: "reconnectAttempts s = 0"
    and n: "length codes = maxReconnectAttempts (options s)"
    and unclean: "\<forall>c\<in>set codes. c \<noteq> 1000"
  shows "reconnectAttempts (failures codes s) = maxReconnectAttempts (options s)
       \<and> reconnects (failures codes s) =
           reconnects s @ retries (math_pow s) (reconnectInterval (options s)) (next_timer s) 0
                            (maxReconnectAttempts (options s))
       \<and> reconnects (handleWebSocketClose c (failures codes s)) = reconnects (failures codes s)
       \<and> connectionStatus (handleWebSocketClose c (failures codes s)) = ''polling''
       \<and> polling_live (handleWebSocketClose c (failures codes s))
       \<and> \<not> isConnected (handleWebSocketClose c (failures codes s))
       \<and> (\<forall>later. reconnects (failures later (handleWebSocketClose c (failures codes s))) =
                    reconnects (failures codes s))"
proof -
  let ?s1 = "failures codes s"
  let ?s2 = "handleWebSocketClose c ?s1"
  have r: "reconnectAttempts ?s1 = reconnectAttempts s + length codes
       \<and> options ?s1 = options s \<and> well_formed ?s1
       \<and> reconnects ?s1 =
           reconnects s @ retries (math_pow s) (reconnectInterval (options s)) (next_timer s)
                            (reconnectAttempts s) (length codes)"
    by (rule failures_retry[OF wf unclean]) (simp add: fresh n)
  then have w1: "well_formed ?s1"
    and full: "maxReconnectAttempts (options ?s1) \<le> reconnectAttempts ?s1"
    by (simp_all add: fresh n)
  note f = close_fallback[OF w1 disjI2[OF full], of c]
  have w2: "well_formed ?s2" by (rule well_formed_handleWebSocketClose[OF w1])
  have full2: "maxReconnectAttempts (options ?s2) \<le> reconnectAttempts ?s2"
    using full by (simp add: f)
  have "\<forall>later. reconnects (failures later ?s2) = reconnects ?s1"
    using failures_fallback[OF w2 full2] by (simp add: f)
  then show ?thesis using r f by (simp add: fresh n)
qed

text \<open>
  An instance with a maximum of two attempts.
\<close>

theorem polling_after_retries_exhausted_witness:
  "well_formed (constructor two_attempts sample_env)
   \<and> reconnectAttempts (constructor two_attempts sample_env) = 0
   \<and> length [1006, 1006 :: nat] = maxReconnectAttempts (options (constructor two_attempts sample_env))
   \<and> reconnects (failures [1006, 1006] (constructor two_attempts sample_env)) =
       [\<lparr>handle = 2, callback = ReconnectAttempt, delay = Finite 5000, repeats = False\<rparr>,
        \<lparr>handle = 3, callback = ReconnectAttempt, delay = Finite 7500, repeats = False\<rparr>]
   \<and> reconnects (handleWebSocketClose 1006 (failures [1006, 1006]
        (constructor two_attempts sample_env))) =
       [\<lparr>handle = 2, callback = ReconnectAttempt, delay = Finite 5000, repeats = False\<rparr>,
        \<lparr>handle = 3, callback = ReconnectAttempt, delay = Finite 7500, repeats = False\<rparr>]
   \<and> connectionStatus (handleWebSocketClose 1006 (failures [1006, 1006]
        (constructor two_attempts sample_env))) = ''polling''"
proof -
  let ?s = "constructor two_attempts sample_env"
  have w: "well_formed ?s" by (rule well_formed_constructor)
  have f: "reconnectAttempts ?s = 0" "maxReconnectAttempts (options ?s) = 2"
    "reconnectInterval (options ?s) = 5000" "next_timer ?s = 2" "reconnects ?s = []"
    "math_pow ?s = nearest_power"
    by (simp_all add: constructor_def init_def startPollingFallback_def setInterval_def
        setTimer_def updateConnectionStatus_def two_attempts_def default_options_def
        reconnects_def sample_env_def)
  have n: "length [1006, 1006 :: nat] = maxReconnectAttempts (options ?s)" by (simp add: f)
  have u: "\<forall>c\<in>set [1006, 1006 :: nat]. c \<noteq> 1000" by simp
  have r: "retries nearest_power 5000 2 0 2 =
       [\<lparr>handle = 2, callback = ReconnectAttempt, delay = Finite 5000, repeats = False\<rparr>,
        \<lparr>handle = 3, callback = ReconnectAttempt, delay = Finite 7500, repeats = False\<rparr>]"
    by (simp add: numeral_2_eq_2 backoff_5000)
  show ?thesis
    using polling_after_retries_exhausted[OF w f(1) n u, of 1006] w n
    by (simp add: f r)
qed

text \<open>
  C7 as stated fails: with a maximum of two attempts, after two consecutive failed
  connection attempts the counter is at the maximum, the reported status is
  \<open>disconnected\<close> and the second retry is pending; when it fires the client opens a
  third socket.
\<close>

theorem retry_pending_after_max_failures:
  "reconnectAttempts twice_failed = maxReconnectAttempts (options twice_failed)
   \<and> sockets twice_failed = [CLOSED, CLOSED]
   \<and> connectionStatus twice_failed = ''disconnected''
   \<and> reconnects twice_failed =
       [\<lparr>handle = 5, callback = ReconnectAttempt, delay = Finite 7500, repeats = False\<rparr>]
   \<and> sockets (run [TimerFires 4, TimerFires 5] twice_failed) = [CLOSED, CLOSED, CONNECTING]"
  unfolding twice_failed_def constructor_def init_def
  by (simp add: handler_simps timer_simps reconnects_def two_attempts_def
      default_options_def sample_env_def)

subsection \<open>C8: subscriber isolation\<close>

text \<open>
  C8. \<open>emit\<close> calls every callback registered for the event, in registration order and
  with the published data, whichever of them throw: each throw is caught (one console error
  per throwing callback) and the callbacks registered after it are still called.
\<close>

theorem emit_isolates_throwing_listeners:
  assumes "listeners s event = Some cbs"
  shows "trace (emit event data s) = trace s @ map (\<lambda>cb. Delivered event cb data) cbs
       \<and> console (emit event data s) =
           console s @ map (\<lambda>cb. ''Error in event listener'')
                         (filter (\<lambda>cb. listener_throws s cb data) cbs)"
  using assms by (simp add: emit_eq subscribers_def)

text \<open>
  An instance: three subscribers, the second throwing.
\<close>

theorem emit_isolates_throwing_listeners_witness:
  "listeners (on ''metrics_update'' 9 (on ''metrics_update'' 8 (on ''metrics_update'' 7
       (constructor default_options sample_env)))) ''metrics_update'' = Some [7, 8, 9]
   \<and> listener_throws (constructor default_options sample_env) 8 (AValue JNull)
   \<and> trace (emit ''metrics_update'' (AValue JNull)
        (on ''metrics_update'' 9 (on ''metrics_update'' 8 (on ''metrics_update'' 7
          (constructor default_options sample_env))))) =
       [Delivered ''metrics_update'' 7 (AValue JNull),
        Delivered ''metrics_update'' 8 (AValue JNull),
        Delivered ''metrics_update'' 9 (AValue JNull)]
   \<and> console (emit ''metrics_update'' (AValue JNull)
        (on ''metrics_update'' 9 (on ''metrics_update'' 8 (on ''metrics_update'' 7
          (constructor default_options sample_env))))) = [''Error in event listener'']"
proof -
  let ?s = "on ''metrics_update'' 9 (on ''metrics_update'' 8 (on ''metrics_update'' 7
       (constructor default_options sample_env)))"
  have l: "listeners ?s ''metrics_update'' = Some [7, 8, 9]"
    by (simp add: on_def constructor_def init_def startPollingFallback_def setInterval_def
          setTimer_def updateConnectionStatus_def Let_def)
  have t: "trace ?s = []" "console ?s = []"
      "listener_throws ?s = (\<lambda>cb data. cb = 8)"
    by (simp_all add: on_def constructor_def init_def startPollingFallback_def setInterval_def
          setTimer_def updateConnectionStatus_def Let_def sample_env_def)
  have u: "listener_throws (constructor default_options sample_env) 8 (AValue JNull)"
    by (simp add: constructor_def init_def startPollingFallback_def setInterval_def
          setTimer_def updateConnectionStatus_def Let_def sample_env_def)
  show ?thesis
    using emit_isolates_throwing_listeners[OF l, of "AValue JNull"] l u
    by (simp add: t)
qed

subsection \<open>C9: send\<close>

text \<open>
  C9. In every reachable state and for every message (a JSON value) \<open>send\<close> returns
  normally. It hands the message to the current socket exactly when the client is
  connected and that socket is open, and leaves the state unchanged otherwise.
\<close>

theorem send_only_when_connected:
  "send data (run evs (constructor opts env)) =
     Ok (if connected (run evs (constructor opts env))
         then transmit data (run evs (constructor opts env))
         else run evs (constructor opts env))"
proof -
  let ?s = "run evs (constructor opts env)"
  have "sockets_ok ?s" using well_formed_reachable[of evs opts env] by (simp add: well_formed_def)
  then have c: "isConnected ?s \<Longrightarrow> websocket ?s \<noteq> None" by (auto simp: sockets_ok_def)
  show ?thesis
  proof (cases "isConnected ?s")
    case False
    then show ?thesis by (simp add: send_def connected_def)
  next
    case True
    with c obtain w where w: "websocket ?s = Some w" by blast
    show ?thesis
      using True w by (simp add: send_def connected_def transmit_def ws_send_def)
  qed
qed

text \<open>
  Instances: a connected client transmits, a freshly constructed one drops the message.
\<close>

theorem send_only_when_connected_witness:
  "send (JStr ''hello'') busy_client = Ok (record_effect (Sent 1 (JStr ''hello'')) busy_client)
   \<and> send (JStr ''hello'') sample_client = Ok sample_client"
proof -
  have c: "connected busy_client" "transmit (JStr ''hello'') busy_client =
      record_effect (Sent 1 (JStr ''hello'')) busy_client"
    by (simp_all add: connected_def transmit_def busy_client_fields readyState_def)
  have n: "\<not> connected sample_client"
    by (simp add: connected_def sample_client_eq)
  have 1: "send (JStr ''hello'') busy_client =
           Ok (record_effect (Sent 1 (JStr ''hello'')) busy_client)"
    using send_only_when_connected
            [of "JStr ''hello''"
                "[CallConnect, SocketCloses 0 1006, NetworkOnline, SocketOpens 1,
                  SocketMessage 1 (Some sample_frame)]" default_options sample_env]
    unfolding sample_client_def[symmetric] busy_client_def[symmetric]
    by (simp add: c)
  have 2: "send (JStr ''hello'') sample_client = Ok sample_client"
    using send_only_when_connected[of "JStr ''hello''" "[]" default_options sample_env]
    unfolding run.simps sample_client_def[symmetric]
    by (simp add: n)
  show ?thesis using 1 2 by simp
qed

subsection \<open>C10: a throwing action in a flush\<close>

text \<open>
  C10. When a buffered action throws during a flush, the flush has invoked the functions
  before it and the action itself and none of the entries after it; the buffer is emptied
  and the timer handle released all the same, so that a later flush invokes nothing of it.
\<close>

theorem flush_stops_at_first_throw:
  assumes "updateQueue s = pre @ f # post"
    and "is_function f" and "update_throws s f"
    and "\<forall>g\<in>set pre. is_function g \<longrightarrow> \<not> update_throws s g"
  shows "trace (processUpdateQueue s) = trace s @ map Invoked (filter is_function pre @ [f])
       \<and> updateQueue (processUpdateQueue s) = []
       \<and> updateTimer (processUpdateQueue s) = None
       \<and> trace (processUpdateQueue (processUpdateQueue s)) = trace (processUpdateQueue s)"
proof -
  have "invoked_prefix (update_throws s) (pre @ f # post) = filter is_function pre @ [f]"
    using assms(2-4) by (induction pre) auto
  then show ?thesis using assms(1) by (simp add: processUpdateQueue_eq)
qed

text \<open>
  An instance: of three buffered actions, the second throwing, the third is never invoked.
\<close>

theorem flush_stops_at_first_throw_witness:
  "updateQueue (queueUpdate (ExternalFn 9) (queueUpdate (ExternalFn 8)
       (queueUpdate (ExternalFn 7) sample_client))) = [ExternalFn 7] @ ExternalFn 8 # [ExternalFn 9]
   \<and> update_throws sample_client (ExternalFn 8)
   \<and> trace (processUpdateQueue (queueUpdate (ExternalFn 9) (queueUpdate (ExternalFn 8)
       (queueUpdate (ExternalFn 7) sample_client)))) = [Invoked (ExternalFn 7), Invoked (ExternalFn 8)]
   \<and> updateQueue (processUpdateQueue (queueUpdate (ExternalFn 9) (queueUpdate (ExternalFn 8)
       (queueUpdate (ExternalFn 7) sample_client)))) = []"
proof -
  let ?s = "queueUpdate (ExternalFn 9) (queueUpdate (ExternalFn 8)
       (queueUpdate (ExternalFn 7) sample_client))"
  have q: "updateQueue ?s = [ExternalFn 7] @ ExternalFn 8 # [ExternalFn 9]"
    and u: "update_throws ?s = (\<lambda>f. f = ExternalFn 8)"
    and t: "trace ?s = []"
    by (simp_all add: sample_client_eq queueUpdate_def setTimeout_def setTimer_def Let_def)
  have f: "is_function (ExternalFn 8)" by simp
  have th: "update_throws ?s (ExternalFn 8)" by (simp add: u)
  have nothrow: "\<forall>g\<in>set [ExternalFn 7]. is_function g \<longrightarrow> \<not> update_throws ?s g"
    by (simp add: u)
  have th0: "update_throws sample_client (ExternalFn 8)" by (simp add: sample_client_eq)
  show ?thesis
    using flush_stops_at_first_throw[OF q f th nothrow] q th0
    by (simp add: t)
qed

section \<open>Further properties\<close>

text \<open>
  X1. In every reachable state at most one flush timer is pending, however many updates
  are queued.
\<close>

theorem at_most_one_flush_timer:
  "length (flush_timers (run evs (constructor opts env))) \<le> 1"
proof -
  let ?s = "run evs (constructor opts env)"
  have ok: "timers_ok ?s"
    using well_formed_reachable[of evs opts env] by (simp add: well_formed_def)
  then have d: "distinct (map handle (flush_timers ?s))"
    by (simp add: timers_ok_def flush_timers_def distinct_map_filter)
  show ?thesis
  proof (cases "updateTimer ?s")
    case None
    with ok have "flush_timers ?s = []"
      by (auto simp: timers_ok_def flush_timers_def filter_empty_conv)
    then show ?thesis by simp
  next
    case (Some h)
    with ok have "\<forall>t\<in>set (flush_timers ?s). handle t = h"
      by (auto simp: timers_ok_def flush_timers_def)
    with d show ?thesis by (rule same_key_distinct)
  qed
qed

text \<open>
  X2. A successful open resets the attempt counter to exactly 0 and marks the client
  connected, whatever the counter was.
\<close>

theorem open_resets_attempts:
  "reconnectAttempts (handleWebSocketOpen s) = 0 \<and> isConnected (handleWebSocketOpen s)"
  by (simp add: handleWebSocketOpen_def updateConnectionStatus_def emit_eq startHeartbeat_def
      setInterval_def setTimer_def)

text \<open>
  X3. Protocol errors do not end the session: a frame that is not JSON, and the JSON
  \<open>null\<close>, are logged and dropped; a frame of a type that is not recognised (the
  heartbeat acknowledgment included) is only published as an \<open>update\<close> event.
\<close>

theorem bad_frames_are_dropped:
  "handleWebSocketMessage None s = console_error ''Failed to parse WebSocket message'' s
   \<and> handleWebSocketMessage (Some JNull) s =
       console_error ''Failed to parse WebSocket message'' s
   \<and> (getProp frame ''type'' = Some t
        \<and> t \<noteq> JStr ''metrics_update'' \<and> t \<noteq> JStr ''agent_status_change''
        \<and> t \<noteq> JStr ''task_status_change'' \<and> t \<noteq> JStr ''system_alert''
        \<and> t \<noteq> JStr ''pool_scaling''
        \<longrightarrow> handleWebSocketMessage (Some frame) s = emit ''update'' (AValue frame) s)"
  by (simp add: handleWebSocketMessage_def processRealTimeUpdate_def)

theorem bad_frames_are_dropped_witness:
  "getProp (JObj [(''type'', JStr ''mystery'')]) ''type'' = Some (JStr ''mystery'')
   \<and> trace (handleWebSocketMessage (Some (JObj [(''type'', JStr ''mystery'')])) watched_client) =
       [Delivered ''update'' 7 (AValue (JObj [(''type'', JStr ''mystery'')]))]"
proof -
  have g: "getProp (JObj [(''type'', JStr ''mystery'')]) ''type'' = Some (JStr ''mystery'')"
    by simp
  have "handleWebSocketMessage (Some (JObj [(''type'', JStr ''mystery'')])) watched_client =
        emit ''update'' (AValue (JObj [(''type'', JStr ''mystery'')])) watched_client"
    using bad_frames_are_dropped[of watched_client "JObj [(''type'', JStr ''mystery'')]"
            "JStr ''mystery''"] g
    by simp
  then show ?thesis
    using g by (simp add: emit_eq watched_subscribers watched_trace)
qed

text \<open>
  X4. The subscriber registry does not deduplicate: a callback registered twice for an
  event is called twice per publish; unsubscribing removes every registration of it.
\<close>

theorem duplicate_subscription_called_twice:
  "subscribers (on event cb (on event cb s)) event = subscribers s event @ [cb, cb]
   \<and> trace (emit event data (on event cb (on event cb s))) =
       trace s @ map (\<lambda>c. Delivered event c data) (subscribers s event @ [cb, cb])
   \<and> subscribers (off event cb s) event = filter (\<lambda>c. c \<noteq> cb) (subscribers s event)"
  by (simp add: emit_eq subscribers_def on_def off_def split: option.splits)

text \<open>
  X5. A pushed \<open>agent_status_change\<close> frame whose payload has the new status \<open>failed\<close> and
  an agent identifier that makes a selector, received while the stored notifications
  are a sequence, records a notification of severity
  \<open>warning\<close> at the head of the store and calls, in this order, the subscribers of
  \<open>notification\<close> with that notification, the subscribers of \<open>agent_status_change\<close> with the
  payload and the subscribers of \<open>update\<close> with the frame.
\<close>

theorem agent_failure_is_published_and_recorded:
  assumes ty: "getProp frame ''type'' = Some (JStr ''agent_status_change'')"
    and failed: "field (field frame ''payload'') ''new_status'' = JStr ''failed''"
    and valid: "\<not> invalid_selector s (field (field frame ''payload'') ''agent_id'')"
    and st: "stored_list (storage s) = Some old"
  shows "storage (handleWebSocketMessage (Some frame) s) =
           ItemArray (take 50 (agent_failed_note s (field frame ''payload'') # old))
       \<and> trace (handleWebSocketMessage (Some frame) s) =
           trace s
           @ map (\<lambda>cb. Delivered ''notification'' cb
                    (ANotification (agent_failed_note s (field frame ''payload''))))
               (subscribers s ''notification'')
           @ map (\<lambda>cb. Delivered ''agent_status_change'' cb (AValue (field frame ''payload'')))
               (subscribers s ''agent_status_change'')
           @ map (\<lambda>cb. Delivered ''update'' cb (AValue frame)) (subscribers s ''update'')"
proof -
  let ?p = "field frame ''payload''"
  let ?n = "agent_failed_note s ?p"
  have nn: "\<not> nullish ?p"
    using failed by (cases ?p) (simp_all add: field_def)
  let ?s1 = "s\<lparr>storage := ItemArray (take 50 (?n # old)),
               notificationCount := min 50 (Suc (length old))\<rparr>"
  have sn: "storeNotification ?n s = Ok ?s1"
    by (rule storeNotification_eq[OF st])
  have sh: "showNotification [Lit ''Agent '', Interp (field ?p ''agent_id''), Lit '' has failed'']
              ''warning'' \<lparr>icon = ''alert-triangle'', duration = None, details = None\<rparr> s =
            Ok (emit ''notification'' (ANotification ?n) ?s1)"
    using sn by (simp add: showNotification_def agent_failed_note_def Let_def)
  have h: "handleAgentStatusChange ?p s =
        Ok (emit ''agent_status_change'' (AValue ?p)
              (emit ''notification'' (ANotification ?n) ?s1))"
    unfolding handleAgentStatusChange_valid[OF nn valid] using failed sh by simp
  have m: "handleWebSocketMessage (Some frame) s =
        emit ''update'' (AValue frame)
          (emit ''agent_status_change'' (AValue ?p)
              (emit ''notification'' (ANotification ?n) ?s1))"
    using ty h by (simp add: handleWebSocketMessage_def processRealTimeUpdate_def)
  show ?thesis
    unfolding m by (simp add: emit_eq subscribers_frame del: take_Cons_numeral)
qed

theorem agent_failure_is_published_and_recorded_witness:
  "stored_list (storage sample_client) = Some []
   \<and> \<not> invalid_selector sample_client (JStr ''a1'')
   \<and> storage (handleWebSocketMessage
        (Some (JObj [(''type'', JStr ''agent_status_change''),
                     (''payload'', JObj [(''agent_id'', JStr ''a1''),
                                         (''old_status'', JStr ''idle''),
                                         (''new_status'', JStr ''failed''),
                                         (''pool_name'', JStr ''healthcare'')])]))
        sample_client) =
       ItemArray
         [\<lparr>notif_id = 0,
           notif_message = [Lit ''Agent '', Interp (JStr ''a1''), Lit '' has failed''],
           notif_type = ''warning'', notif_timestamp = 0,
           notif_options = \<lparr>icon = ''alert-triangle'', duration = None, details = None\<rparr>\<rparr>]"
proof -
  let ?f = "JObj [(''type'', JStr ''agent_status_change''),
                     (''payload'', JObj [(''agent_id'', JStr ''a1''),
                                         (''old_status'', JStr ''idle''),
                                         (''new_status'', JStr ''failed''),
                                         (''pool_name'', JStr ''healthcare'')])]"
  have ty: "getProp ?f ''type'' = Some (JStr ''agent_status_change'')" by simp
  have fl: "field (field ?f ''payload'') ''new_status'' = JStr ''failed''"
    by (simp add: field_def)
  have st: "stored_list (storage sample_client) = Some []"
    by (simp add: sample_client_eq stored_list_def)
  have v: "\<not> invalid_selector sample_client (field (field ?f ''payload'') ''agent_id'')"
    and v': "\<not> invalid_selector sample_client (JStr ''a1'')"
    by (simp_all add: sample_client_eq field_def)
  have n: "agent_failed_note sample_client (field ?f ''payload'') =
        \<lparr>notif_id = 0,
           notif_message = [Lit ''Agent '', Interp (JStr ''a1''), Lit '' has failed''],
           notif_type = ''warning'', notif_timestamp = 0,
           notif_options = \<lparr>icon = ''alert-triangle'', duration = None, details = None\<rparr>\<rparr>"
    by (simp add: agent_failed_note_def field_def sample_client_eq)
  show ?thesis
    using agent_failure_is_published_and_recorded[OF ty fl v st] st v'
    unfolding n by simp
qed

text \<open>
  X6. A pushed \<open>agent_status_change\<close> or \<open>task_status_change\<close> frame whose identifier
  does not make a selector is dropped: the SyntaxError of \<open>querySelectorAll\<close> is caught
  by \<open>handleWebSocketMessage\<close> and logged, nothing is stored and no subscriber is
  called, those of \<open>update\<close> included.
\<close>

theorem invalid_selector_drops_frame:
  assumes "getProp frame ''type'' = Some (JStr ''agent_status_change'')
             \<and> invalid_selector s (field (field frame ''payload'') ''agent_id'')
         \<or> getProp frame ''type'' = Some (JStr ''task_status_change'')
             \<and> invalid_selector s (field (field frame ''payload'') ''task_id'')"
    and "\<not> nullish (field frame ''payload'')"
  shows "handleWebSocketMessage (Some frame) s =
           console_error ''Failed to parse WebSocket message'' s"
  using assms
  by (auto simp add: handleWebSocketMessage_def processRealTimeUpdate_def
      handleAgentStatusChange_invalid handleTaskStatusChange_invalid)

theorem invalid_selector_drops_frame_witness:
  "invalid_selector quoting_client (JStr (''a'' @ [CHR 0x22]))
   \<and> \<not> nullish (JObj [(''agent_id'', JStr (''a'' @ [CHR 0x22])),
                       (''new_status'', JStr ''failed'')])
   \<and> storage (handleWebSocketMessage
        (Some (JObj [(''type'', JStr ''agent_status_change''),
                     (''payload'', JObj [(''agent_id'', JStr (''a'' @ [CHR 0x22])),
                                         (''new_status'', JStr ''failed'')])]))
        quoting_client) = NoItem
   \<and> trace (handleWebSocketMessage
        (Some (JObj [(''type'', JStr ''agent_status_change''),
                     (''payload'', JObj [(''agent_id'', JStr (''a'' @ [CHR 0x22])),
                                         (''new_status'', JStr ''failed'')])]))
        quoting_client) = []
   \<and> console (handleWebSocketMessage
        (Some (JObj [(''type'', JStr ''agent_status_change''),
                     (''payload'', JObj [(''agent_id'', JStr (''a'' @ [CHR 0x22])),
                                         (''new_status'', JStr ''failed'')])]))
        quoting_client) = [''Failed to parse WebSocket message'']"
proof -
  let ?p = "JObj [(''agent_id'', JStr (''a'' @ [CHR 0x22])), (''new_status'', JStr ''failed'')]"
  let ?f = "JObj [(''type'', JStr ''agent_status_change''), (''payload'', ?p)]"
  have ty: "getProp ?f ''type'' = Some (JStr ''agent_status_change'')" by simp
  have pl: "field ?f ''payload'' = ?p" by (simp add: field_def)
  have ag: "field ?p ''agent_id'' = JStr (''a'' @ [CHR 0x22])" by (simp add: field_def)
  have inv: "invalid_selector quoting_client (JStr (''a'' @ [CHR 0x22]))"
    by (simp add: quoting_client_def)
  have nn: "\<not> nullish ?p" by simp
  have a: "getProp ?f ''type'' = Some (JStr ''agent_status_change'')
             \<and> invalid_selector quoting_client (field (field ?f ''payload'') ''agent_id'')
         \<or> getProp ?f ''type'' = Some (JStr ''task_status_change'')
             \<and> invalid_selector quoting_client (field (field ?f ''payload'') ''task_id'')"
    unfolding pl ag using ty inv by blast
  have b: "\<not> nullish (field ?f ''payload'')" unfolding pl by (rule nn)
  have f: "storage quoting_client = NoItem" "trace quoting_client = []"
    "console quoting_client = []"
    by (simp_all add: quoting_client_def sample_client_eq)
  show ?thesis
    unfolding invalid_selector_drops_frame[OF a b]
    using inv nn by (simp add: console_error_def f)
qed

text \<open>
  X7. On an engine whose \<open>Math.pow\<close> is exact on doubles, when the options are such that
  3 to the power of the maximum number of attempts minus one, and the base interval
  times that, are below 2 to the power 53, every retry that a non-clean close schedules
  is delayed by exactly the base interval times 1.5 to the power of the attempts made
  before. The default options (5000 milliseconds, 10 attempts) are such options.
\<close>

theorem close_retry_delay_exact:
  assumes w: "well_formed s" and c: "code \<noteq> 1000"
    and a: "reconnectAttempts s < maxReconnectAttempts (options s)"
    and e: "exact_on_doubles (math_pow s)"
    and p: "3 ^ (maxReconnectAttempts (options s) - 1) < (2::nat) ^ 53"
    and b: "reconnectInterval (options s) * 3 ^ (maxReconnectAttempts (options s) - 1) < 2 ^ 53"
  shows "reconnects (handleWebSocketClose code s) =
           reconnects s @
             [\<lparr>handle = next_timer s, callback = ReconnectAttempt,
               delay = Finite (of_nat (reconnectInterval (options s))
                         * (3 / 2) ^ reconnectAttempts s),
               repeats = False\<rparr>]"
proof -
  from a have "reconnectAttempts s \<le> maxReconnectAttempts (options s) - 1" by simp
  then have m: "(3::nat) ^ reconnectAttempts s \<le> 3 ^ (maxReconnectAttempts (options s) - 1)"
    by (rule power_increasing) simp
  then have p': "3 ^ reconnectAttempts s < (2::nat) ^ 53"
    using p by (rule le_less_trans)
  from m have "reconnectInterval (options s) * 3 ^ reconnectAttempts s
      \<le> reconnectInterval (options s) * 3 ^ (maxReconnectAttempts (options s) - 1)"
    by (rule mult_le_mono2)
  then have b': "reconnectInterval (options s) * 3 ^ reconnectAttempts s < 2 ^ 53"
    using b by (rule le_less_trans)
  show ?thesis
    unfolding close_retry(4)[OF w c a] backoff_exact[OF e p' b'] ..
qed

theorem close_retry_delay_exact_witness:
  "well_formed sample_client
   \<and> reconnectAttempts sample_client < maxReconnectAttempts (options sample_client)
   \<and> exact_on_doubles (math_pow sample_client)
   \<and> 3 ^ (maxReconnectAttempts (options sample_client) - 1) < (2::nat) ^ 53
   \<and> reconnectInterval (options sample_client)
       * 3 ^ (maxReconnectAttempts (options sample_client) - 1) < 2 ^ 53
   \<and> reconnects (handleWebSocketClose 1006 sample_client) =
       [\<lparr>handle = 2, callback = ReconnectAttempt, delay = Finite 5000, repeats = False\<rparr>]"
proof -
  have w: "well_formed sample_client"
    unfolding sample_client_def by (rule well_formed_constructor)
  have f: "reconnectAttempts sample_client = 0"
    "maxReconnectAttempts (options sample_client) = 10"
    "reconnectInterval (options sample_client) = 5000"
    "next_timer sample_client = 2" "reconnects sample_client = []"
    by (simp_all add: sample_client_eq default_options_def reconnects_def)
  have c: "(1006::nat) \<noteq> 1000" by simp
  have a: "reconnectAttempts sample_client < maxReconnectAttempts (options sample_client)"
    by (simp add: f)
  have e: "exact_on_doubles (math_pow sample_client)"
    by (simp add: sample_client_eq exact_nearest_power)
  have p: "3 ^ (maxReconnectAttempts (options sample_client) - 1) < (2::nat) ^ 53"
    by (simp add: f)
  have b: "reconnectInterval (options sample_client)
       * 3 ^ (maxReconnectAttempts (options sample_client) - 1) < 2 ^ 53"
    by (simp add: f)
  show ?thesis
    using close_retry_delay_exact[OF w c a e p b] w a e p b
    by (simp add: f)
qed

end
